theory Spec2Isabelle
  imports Complex_Main
begin

section \<open>Data model of selectionsGpu.ts\<close>

text \<open>
  The corner classification of a selection highlight, embedded from
  \<^verbatim>\<open>src/vs/editor/browser/viewParts/selectionsGpu/selectionsGpu.ts\<close>.

  JavaScript numbers that hold pixel offsets are rationals (a finite double is the rational
  it denotes; NaN and the infinities are outside the model); line numbers and columns are
  integers. The classification is embedded twice: first with exact arithmetic, then (the
  definitions with the suffix \<open>_rounded\<close>) with every \<^verbatim>\<open>+\<close>, \<^verbatim>\<open>-\<close> and \<^verbatim>\<open>/\<close> of
  the source followed by the rounding of the number format, as the arithmetic of doubles
  does. The statements for the claims C5 and C7, which turn on the rounding of a sum or of
  a difference next to epsilon, are about the second embedding. Reading a property of \<^verbatim>\<open>undefined\<close> or \<^verbatim>\<open>null\<close> raises a
  TypeError in the source; in the model every such read is a branch returning
  \<open>Inl TypeError\<close>.
\<close>

datatype error = TypeError

datatype CornerStyle = EXTERN | INTERN | FLAT

text \<open>\<^verbatim>\<open>interface IVisibleRangeEndPointStyle { top; bottom }\<close>; the fields carry a suffix
  because \<open>top\<close> is a constant of HOL.\<close>

record IVisibleRangeEndPointStyle =
  top_style :: CornerStyle
  bottom_style :: CornerStyle

text \<open>\<^verbatim>\<open>HorizontalRange\<close> (of renderingContext.ts) and the class
  \<^verbatim>\<open>HorizontalRangeWithStyle\<close>, which adds the two nullable styles.\<close>

record HorizontalRange =
  left :: rat
  width :: rat

record HorizontalRangeWithStyle = HorizontalRange +
  startStyle :: "IVisibleRangeEndPointStyle option"
  endStyle :: "IVisibleRangeEndPointStyle option"

text \<open>\<^verbatim>\<open>LineVisibleRanges\<close> (the geometry provider's answer for one line) and the class
  \<^verbatim>\<open>LineVisibleRangesWithStyle\<close>. Both have the fields \<^verbatim>\<open>lineNumber\<close> and
  \<^verbatim>\<open>ranges\<close>; the provider's record carries the prefix \<open>raw_\<close>.\<close>

record LineVisibleRanges =
  raw_lineNumber :: int
  raw_ranges :: "HorizontalRange list"

record LineVisibleRangesWithStyle =
  lineNumber :: int
  ranges :: "HorizontalRangeWithStyle list"

text \<open>\<^verbatim>\<open>Range\<close> of common/core/range.ts: the viewport and the selections.\<close>

record Range =
  startLineNumber :: int
  startColumn :: int
  endLineNumber :: int
  endColumn :: int

text \<open>The part of \<^verbatim>\<open>RenderingContext\<close> that the module reads: the viewport and the
  geometry query \<^verbatim>\<open>linesVisibleRangesForRange(range, includeNewLines)\<close>, which may
  answer \<^verbatim>\<open>null\<close>.\<close>

record RenderingContext =
  visibleRange :: Range
  linesVisibleRangesForRange :: "Range \<Rightarrow> bool \<Rightarrow> LineVisibleRanges list option"

text \<open>The fields of \<^verbatim>\<open>SelectionsGpu\<close> that classification reads
  (\<^verbatim>\<open>_roundedSelection\<close>, \<^verbatim>\<open>_typicalHalfwidthCharacterWidth\<close>).\<close>

record SelectionsGpu =
  roundedSelection :: bool
  typicalHalfwidthCharacterWidth :: rat

section \<open>Construction of styled ranges\<close>

definition toStyledRange :: "HorizontalRange \<Rightarrow> HorizontalRangeWithStyle" where
  "toStyledRange item =
     \<lparr>left = left item, width = width item, startStyle = None, endStyle = None\<rparr>"

definition toStyled :: "LineVisibleRanges \<Rightarrow> LineVisibleRangesWithStyle" where
  "toStyled item =
     \<lparr>lineNumber = raw_lineNumber item, ranges = map toStyledRange (raw_ranges item)\<rparr>"

text \<open>\<^verbatim>\<open>function abs(n) { return n < 0 ? -n : n; }\<close>\<close>

definition abs_num :: "rat \<Rightarrow> rat" where
  "abs_num n = (if n < 0 then - n else n)"

section \<open>Gap detection\<close>

text \<open>\<^verbatim>\<open>_visibleRangesHaveGaps\<close>: the loop returns true at the first line that has more
  than one range.\<close>

fun visibleRangesHaveGaps :: "LineVisibleRangesWithStyle list \<Rightarrow> bool" where
  "visibleRangesHaveGaps [] = False"
| "visibleRangesHaveGaps (lineVisibleRanges # rest) =
     (if length (ranges lineVisibleRanges) > 1 then True else visibleRangesHaveGaps rest)"

section \<open>Corner classification\<close>

text \<open>The scan of the previous frame for a line number. The source runs
  \<^verbatim>\<open>for (i = 0; !previousFrameTop && i < previousFrame.length; i++)\<close> and assigns
  \<^verbatim>\<open>previousFrame[i].ranges[0]\<close> at a matching line number; when that line has no
  range the assigned value is \<^verbatim>\<open>undefined\<close> and the scan goes on. The descending scan
  for the bottom line is the same scan over the reversed frame.\<close>

fun scanPreviousFrame ::
  "int \<Rightarrow> LineVisibleRangesWithStyle list \<Rightarrow> HorizontalRangeWithStyle option" where
  "scanPreviousFrame n [] = None"
| "scanPreviousFrame n (l # rest) =
     (if lineNumber l = n
      then (case ranges l of [] \<Rightarrow> scanPreviousFrame n rest | r # _ \<Rightarrow> Some r)
      else scanPreviousFrame n rest)"

text \<open>\<^verbatim>\<open>if (previousFrameTop && !previousFrameTop.startStyle) previousFrameTop = null\<close>\<close>

definition dropUnstyled :: "HorizontalRangeWithStyle option \<Rightarrow> HorizontalRangeWithStyle option" where
  "dropUnstyled p =
     (case p of None \<Rightarrow> None
      | Some r \<Rightarrow> (if startStyle r = None then None else Some r))"

definition previousFrameTop ::
  "Range \<Rightarrow> LineVisibleRangesWithStyle list \<Rightarrow> LineVisibleRangesWithStyle list option
   \<Rightarrow> HorizontalRangeWithStyle option" where
  "previousFrameTop viewport linesVisibleRanges previousFrame =
     (case previousFrame of None \<Rightarrow> None
      | Some pf \<Rightarrow>
          if length pf > 0 \<and> length linesVisibleRanges > 0 then
            (let topLineNumber = lineNumber (linesVisibleRanges ! 0) in
             dropUnstyled
               (if topLineNumber = startLineNumber viewport
                then scanPreviousFrame topLineNumber pf else None))
          else None)"

definition previousFrameBottom ::
  "Range \<Rightarrow> LineVisibleRangesWithStyle list \<Rightarrow> LineVisibleRangesWithStyle list option
   \<Rightarrow> HorizontalRangeWithStyle option" where
  "previousFrameBottom viewport linesVisibleRanges previousFrame =
     (case previousFrame of None \<Rightarrow> None
      | Some pf \<Rightarrow>
          if length pf > 0 \<and> length linesVisibleRanges > 0 then
            (let bottomLineNumber =
                   lineNumber (linesVisibleRanges ! (length linesVisibleRanges - 1)) in
             dropUnstyled
               (if bottomLineNumber = endLineNumber viewport
                then scanPreviousFrame bottomLineNumber (rev pf) else None))
          else None)"

text \<open>\<^verbatim>\<open>linesVisibleRanges[i].ranges[0]\<close> followed by a property read: a TypeError when
  the index is out of range or the line has no range.\<close>

definition firstRange ::
  "LineVisibleRangesWithStyle list \<Rightarrow> nat \<Rightarrow> error + HorizontalRangeWithStyle" where
  "firstRange linesVisibleRanges i =
     (if i < length linesVisibleRanges then
        (case ranges (linesVisibleRanges ! i) of [] \<Rightarrow> Inl TypeError | r # _ \<Rightarrow> Inr r)
      else Inl TypeError)"

text \<open>The borrowed corner of a previous-frame range:
  \<^verbatim>\<open>previousFrameTop.startStyle!.top\<close> and \<^verbatim>\<open>previousFrameTop.endStyle!.top\<close> (with
  \<open>sel = top_style\<close>), or the two \<^verbatim>\<open>bottom\<close> reads. The \<^verbatim>\<open>!\<close> of TypeScript checks
  nothing at run time: a null style raises the TypeError.\<close>

definition borrowed ::
  "(IVisibleRangeEndPointStyle \<Rightarrow> CornerStyle) \<Rightarrow> HorizontalRangeWithStyle
   \<Rightarrow> error + (CornerStyle \<times> CornerStyle)" where
  "borrowed sel p =
     (case startStyle p of None \<Rightarrow> Inl TypeError
      | Some s \<Rightarrow> (case endStyle p of None \<Rightarrow> Inl TypeError
                   | Some e \<Rightarrow> Inr (sel s, sel e)))"

text \<open>The block \<^verbatim>\<open>if (i > 0) { // Look above ... } else if (previousFrameTop) { ... }\<close>;
  the result is the pair (\<^verbatim>\<open>startStyle.top\<close>, \<^verbatim>\<open>endStyle.top\<close>), both EXTERN when no
  branch assigns them.\<close>

definition lookAbove ::
  "rat \<Rightarrow> HorizontalRangeWithStyle option \<Rightarrow> nat \<Rightarrow> LineVisibleRangesWithStyle list
   \<Rightarrow> rat \<Rightarrow> rat \<Rightarrow> error + (CornerStyle \<times> CornerStyle)" where
  "lookAbove epsilon prevFrameTop i linesVisibleRanges curLeft curRight =
     (if i > 0 then
        (case firstRange linesVisibleRanges (i - 1) of Inl e \<Rightarrow> Inl e
         | Inr prev \<Rightarrow>
            (let prevLeft = left prev; prevRight = left prev + width prev in
             Inr (if abs_num (curLeft - prevLeft) < epsilon then FLAT
                  else if curLeft > prevLeft then INTERN else EXTERN,
                  if abs_num (curRight - prevRight) < epsilon then FLAT
                  else if prevLeft < curRight \<and> curRight < prevRight then INTERN else EXTERN)))
      else (case prevFrameTop of None \<Rightarrow> Inr (EXTERN, EXTERN)
            | Some p \<Rightarrow> borrowed top_style p))"

text \<open>The block \<^verbatim>\<open>if (i + 1 < len) { // Look below ... } else if (previousFrameBottom) { ... }\<close>;
  the result is the pair (\<^verbatim>\<open>startStyle.bottom\<close>, \<^verbatim>\<open>endStyle.bottom\<close>).\<close>

definition lookBelow ::
  "rat \<Rightarrow> HorizontalRangeWithStyle option \<Rightarrow> nat \<Rightarrow> nat \<Rightarrow> LineVisibleRangesWithStyle list
   \<Rightarrow> rat \<Rightarrow> rat \<Rightarrow> error + (CornerStyle \<times> CornerStyle)" where
  "lookBelow epsilon prevFrameBottom i len linesVisibleRanges curLeft curRight =
     (if i + 1 < len then
        (case firstRange linesVisibleRanges (i + 1) of Inl e \<Rightarrow> Inl e
         | Inr next \<Rightarrow>
            (let nextLeft = left next; nextRight = left next + width next in
             Inr (if abs_num (curLeft - nextLeft) < epsilon then FLAT
                  else if nextLeft < curLeft \<and> curLeft < nextRight then INTERN else EXTERN,
                  if abs_num (curRight - nextRight) < epsilon then FLAT
                  else if curRight < nextRight then INTERN else EXTERN)))
      else (case prevFrameBottom of None \<Rightarrow> Inr (EXTERN, EXTERN)
            | Some p \<Rightarrow> borrowed bottom_style p))"

text \<open>The two style objects that one iteration of the main loop builds for line \<open>i\<close>.\<close>

definition computeStyle ::
  "rat \<Rightarrow> HorizontalRangeWithStyle option \<Rightarrow> HorizontalRangeWithStyle option \<Rightarrow> nat \<Rightarrow> nat
   \<Rightarrow> LineVisibleRangesWithStyle list
   \<Rightarrow> error + (IVisibleRangeEndPointStyle \<times> IVisibleRangeEndPointStyle)" where
  "computeStyle epsilon prevFrameTop prevFrameBottom i len linesVisibleRanges =
     (case firstRange linesVisibleRanges i of Inl e \<Rightarrow> Inl e
      | Inr curLineRange \<Rightarrow>
         (let curLeft = left curLineRange;
              curRight = left curLineRange + width curLineRange in
          case lookAbove epsilon prevFrameTop i linesVisibleRanges curLeft curRight of
            Inl e \<Rightarrow> Inl e
          | Inr (startTop, endTop) \<Rightarrow>
             (case lookBelow epsilon prevFrameBottom i len linesVisibleRanges curLeft curRight of
                Inl e \<Rightarrow> Inl e
              | Inr (startBottom, endBottom) \<Rightarrow>
                 Inr (\<lparr>top_style = startTop, bottom_style = startBottom\<rparr>,
                      \<lparr>top_style = endTop, bottom_style = endBottom\<rparr>))))"

text \<open>\<^verbatim>\<open>curLineRange.startStyle = startStyle; curLineRange.endStyle = endStyle\<close>: the
  first range of the line is overwritten in place. (On a line without a range the loop
  body has raised before it comes here.)\<close>

definition assignStyle ::
  "LineVisibleRangesWithStyle \<Rightarrow> IVisibleRangeEndPointStyle \<Rightarrow> IVisibleRangeEndPointStyle
   \<Rightarrow> LineVisibleRangesWithStyle" where
  "assignStyle l s e =
     (case ranges l of [] \<Rightarrow> l
      | r # rest \<Rightarrow> l\<lparr>ranges := r\<lparr>startStyle := Some s, endStyle := Some e\<rparr> # rest\<rparr>)"

text \<open>The main loop \<^verbatim>\<open>for (let i = 0, len = linesVisibleRanges.length; i < len; i++)\<close>,
  with the array as the state that each iteration reads and updates.\<close>

function enrichLoop ::
  "rat \<Rightarrow> HorizontalRangeWithStyle option \<Rightarrow> HorizontalRangeWithStyle option \<Rightarrow> nat \<Rightarrow> nat
   \<Rightarrow> LineVisibleRangesWithStyle list \<Rightarrow> error + LineVisibleRangesWithStyle list" where
  "enrichLoop epsilon prevFrameTop prevFrameBottom i len linesVisibleRanges =
     (if i < len then
        (case computeStyle epsilon prevFrameTop prevFrameBottom i len linesVisibleRanges of
           Inl e \<Rightarrow> Inl e
         | Inr (s, e) \<Rightarrow>
             enrichLoop epsilon prevFrameTop prevFrameBottom (i + 1) len
               (linesVisibleRanges[i := assignStyle (linesVisibleRanges ! i) s e]))
      else Inr linesVisibleRanges)"
  by pat_completeness auto
termination
  by (relation "measure (\<lambda>(epsilon, pt, pb, i, len, ls). len - i)") auto

declare enrichLoop.simps [simp del]

text \<open>\<^verbatim>\<open>_enrichVisibleRangesWithStyle(viewport, linesVisibleRanges, previousFrame)\<close>; the
  updated array is returned.\<close>

definition enrichVisibleRangesWithStyle ::
  "SelectionsGpu \<Rightarrow> Range \<Rightarrow> LineVisibleRangesWithStyle list
   \<Rightarrow> LineVisibleRangesWithStyle list option \<Rightarrow> error + LineVisibleRangesWithStyle list" where
  "enrichVisibleRangesWithStyle this viewport linesVisibleRanges previousFrame =
     (let epsilon = typicalHalfwidthCharacterWidth this / 4 in
      enrichLoop epsilon
        (previousFrameTop viewport linesVisibleRanges previousFrame)
        (previousFrameBottom viewport linesVisibleRanges previousFrame)
        0 (length linesVisibleRanges) linesVisibleRanges)"

text \<open>\<^verbatim>\<open>_getVisibleRangesWithStyle(selection, ctx, previousFrame)\<close>\<close>

definition getVisibleRangesWithStyle ::
  "SelectionsGpu \<Rightarrow> Range \<Rightarrow> RenderingContext \<Rightarrow> LineVisibleRangesWithStyle list option
   \<Rightarrow> error + LineVisibleRangesWithStyle list" where
  "getVisibleRangesWithStyle this selection ctx previousFrame =
     (let linesVisibleRanges0 =
            (case linesVisibleRangesForRange ctx selection True of
               None \<Rightarrow> [] | Some ls \<Rightarrow> ls);
          linesVisibleRanges = map toStyled linesVisibleRanges0;
          visibleRangesHaveGaps0 = visibleRangesHaveGaps linesVisibleRanges
      in if \<not> visibleRangesHaveGaps0 \<and> roundedSelection this
         then enrichVisibleRangesWithStyle this (visibleRange ctx) linesVisibleRanges previousFrame
         else Inr linesVisibleRanges)"

section \<open>Corner classification in the arithmetic of doubles\<close>

text \<open>An arithmetic operation on doubles gives the rounding of the exact result. The
  definitions of this section are the loop body and the loop of the section above with
  that rounding, \<open>rnd\<close>, applied wherever the source adds, subtracts or divides; with the
  identity for \<open>rnd\<close> they are the exact definitions.\<close>

text \<open>The block that looks above, with the arithmetic of the source rounded by \<open>rnd\<close>:
  \<^verbatim>\<open>prevRight = left + width\<close> and the two differences \<^verbatim>\<open>curLeft - prevLeft\<close>,
  \<^verbatim>\<open>curRight - prevRight\<close>. The negation in \<^verbatim>\<open>abs\<close> and the comparisons are exact in
  doubles.\<close>

definition lookAbove_rounded ::
  "(rat \<Rightarrow> rat) \<Rightarrow> rat \<Rightarrow> HorizontalRangeWithStyle option \<Rightarrow> nat
   \<Rightarrow> LineVisibleRangesWithStyle list \<Rightarrow> rat \<Rightarrow> rat \<Rightarrow> error + (CornerStyle \<times> CornerStyle)" where
  "lookAbove_rounded rnd epsilon prevFrameTop i linesVisibleRanges curLeft curRight =
     (if i > 0 then
        (case firstRange linesVisibleRanges (i - 1) of Inl e \<Rightarrow> Inl e
         | Inr prev \<Rightarrow>
            (let prevLeft = left prev; prevRight = rnd (left prev + width prev) in
             Inr (if abs_num (rnd (curLeft - prevLeft)) < epsilon then FLAT
                  else if curLeft > prevLeft then INTERN else EXTERN,
                  if abs_num (rnd (curRight - prevRight)) < epsilon then FLAT
                  else if prevLeft < curRight \<and> curRight < prevRight then INTERN else EXTERN)))
      else (case prevFrameTop of None \<Rightarrow> Inr (EXTERN, EXTERN)
            | Some p \<Rightarrow> borrowed top_style p))"

text \<open>The block that looks below, with \<^verbatim>\<open>nextRight = left + width\<close> and the two
  differences rounded.\<close>

definition lookBelow_rounded ::
  "(rat \<Rightarrow> rat) \<Rightarrow> rat \<Rightarrow> HorizontalRangeWithStyle option \<Rightarrow> nat \<Rightarrow> nat
   \<Rightarrow> LineVisibleRangesWithStyle list \<Rightarrow> rat \<Rightarrow> rat \<Rightarrow> error + (CornerStyle \<times> CornerStyle)" where
  "lookBelow_rounded rnd epsilon prevFrameBottom i len linesVisibleRanges curLeft curRight =
     (if i + 1 < len then
        (case firstRange linesVisibleRanges (i + 1) of Inl e \<Rightarrow> Inl e
         | Inr next \<Rightarrow>
            (let nextLeft = left next; nextRight = rnd (left next + width next) in
             Inr (if abs_num (rnd (curLeft - nextLeft)) < epsilon then FLAT
                  else if nextLeft < curLeft \<and> curLeft < nextRight then INTERN else EXTERN,
                  if abs_num (rnd (curRight - nextRight)) < epsilon then FLAT
                  else if curRight < nextRight then INTERN else EXTERN)))
      else (case prevFrameBottom of None \<Rightarrow> Inr (EXTERN, EXTERN)
            | Some p \<Rightarrow> borrowed bottom_style p))"

text \<open>One iteration of the main loop, with \<^verbatim>\<open>curRight = curLineRange.left +
  curLineRange.width\<close> rounded.\<close>

definition computeStyle_rounded ::
  "(rat \<Rightarrow> rat) \<Rightarrow> rat \<Rightarrow> HorizontalRangeWithStyle option \<Rightarrow> HorizontalRangeWithStyle option
   \<Rightarrow> nat \<Rightarrow> nat \<Rightarrow> LineVisibleRangesWithStyle list
   \<Rightarrow> error + (IVisibleRangeEndPointStyle \<times> IVisibleRangeEndPointStyle)" where
  "computeStyle_rounded rnd epsilon prevFrameTop prevFrameBottom i len linesVisibleRanges =
     (case firstRange linesVisibleRanges i of Inl e \<Rightarrow> Inl e
      | Inr curLineRange \<Rightarrow>
         (let curLeft = left curLineRange;
              curRight = rnd (left curLineRange + width curLineRange) in
          case lookAbove_rounded rnd epsilon prevFrameTop i linesVisibleRanges curLeft curRight of
            Inl e \<Rightarrow> Inl e
          | Inr (startTop, endTop) \<Rightarrow>
             (case lookBelow_rounded rnd epsilon prevFrameBottom i len linesVisibleRanges
                     curLeft curRight of
                Inl e \<Rightarrow> Inl e
              | Inr (startBottom, endBottom) \<Rightarrow>
                 Inr (\<lparr>top_style = startTop, bottom_style = startBottom\<rparr>,
                      \<lparr>top_style = endTop, bottom_style = endBottom\<rparr>))))"

text \<open>The main loop, as \<open>enrichLoop\<close>.\<close>

function enrichLoop_rounded ::
  "(rat \<Rightarrow> rat) \<Rightarrow> rat \<Rightarrow> HorizontalRangeWithStyle option \<Rightarrow> HorizontalRangeWithStyle option
   \<Rightarrow> nat \<Rightarrow> nat \<Rightarrow> LineVisibleRangesWithStyle list
   \<Rightarrow> error + LineVisibleRangesWithStyle list" where
  "enrichLoop_rounded rnd epsilon prevFrameTop prevFrameBottom i len linesVisibleRanges =
     (if i < len then
        (case computeStyle_rounded rnd epsilon prevFrameTop prevFrameBottom i len
                linesVisibleRanges of
           Inl e \<Rightarrow> Inl e
         | Inr (s, e) \<Rightarrow>
             enrichLoop_rounded rnd epsilon prevFrameTop prevFrameBottom (i + 1) len
               (linesVisibleRanges[i := assignStyle (linesVisibleRanges ! i) s e]))
      else Inr linesVisibleRanges)"
  by pat_completeness auto
termination
  by (relation "measure (\<lambda>(rnd, epsilon, pt, pb, i, len, ls). len - i)") auto

declare enrichLoop_rounded.simps [simp del]

text \<open>\<^verbatim>\<open>_enrichVisibleRangesWithStyle\<close> with
  \<^verbatim>\<open>epsilon = this._typicalHalfwidthCharacterWidth / 4\<close> rounded.\<close>

definition enrichVisibleRangesWithStyle_rounded ::
  "(rat \<Rightarrow> rat) \<Rightarrow> SelectionsGpu \<Rightarrow> Range \<Rightarrow> LineVisibleRangesWithStyle list
   \<Rightarrow> LineVisibleRangesWithStyle list option \<Rightarrow> error + LineVisibleRangesWithStyle list" where
  "enrichVisibleRangesWithStyle_rounded rnd this viewport linesVisibleRanges previousFrame =
     (let epsilon = rnd (typicalHalfwidthCharacterWidth this / 4) in
      enrichLoop_rounded rnd epsilon
        (previousFrameTop viewport linesVisibleRanges previousFrame)
        (previousFrameBottom viewport linesVisibleRanges previousFrame)
        0 (length linesVisibleRanges) linesVisibleRanges)"

text \<open>The rounding of binary64, the number format of JavaScript: the double nearest to a
  rational, ties to the even significand, with 53 significant bits and the smallest
  exponent -1022 (below it the spacing of the subnormal numbers). A result beyond the
  largest double is Infinity in JavaScript; the model has no such value and \<open>round64\<close>
  says nothing faithful there.\<close>

text \<open>The number of binary digits of a positive integer.\<close>

function bitLength :: "int \<Rightarrow> int" where
  "bitLength n = (if n \<le> 0 then 0 else 1 + bitLength (n div 2))"
  by pat_completeness auto
termination
  by (relation "measure nat") auto

declare bitLength.simps [simp del]

text \<open>The power of two with an integer exponent.\<close>

definition pow2 :: "int \<Rightarrow> rat" where
  "pow2 k = (if k \<ge> 0 then 2 ^ nat k else 1 / 2 ^ nat (- k))"

text \<open>For \<open>x > 0\<close>, the integer \<open>e\<close> with \<open>2^e \<le> x < 2^(e + 1)\<close>.\<close>

definition binadeExponent :: "rat \<Rightarrow> int" where
  "binadeExponent x =
     (if x \<ge> 1 then bitLength \<lfloor>x\<rfloor> - 1
      else - bitLength (\<lceil>1 / x\<rceil> - 1))"

text \<open>The nearest integer, a tie going to the even one.\<close>

definition roundHalfEven :: "rat \<Rightarrow> int" where
  "roundHalfEven y =
     (let f = \<lfloor>y\<rfloor>; r = y - of_int f in
      if r < 1 / 2 then f else if r > 1 / 2 then f + 1 else if even f then f else f + 1)"

text \<open>The nearest multiple of the spacing \<open>2^(e - 52)\<close> of the doubles around \<open>x\<close>.\<close>

definition round64 :: "rat \<Rightarrow> rat" where
  "round64 x =
     (if x = 0 then 0
      else (let e = max (binadeExponent \<bar>x\<bar>) (- 1022); q = pow2 (e - 52) in
            sgn x * (of_int (roundHalfEven (\<bar>x\<bar> / q)) * q)))"

section \<open>Emission\<close>

text \<open>\<^verbatim>\<open>_actualRenderOneSelection(output2, visibleStartLineNumber, hasMultipleSelections,
  visibleRanges)\<close> has an empty body (the former body is commented out): it returns without
  touching \<^verbatim>\<open>output2\<close>, the per-line pairs of inner-corner text and body text.\<close>

definition actualRenderOneSelection ::
  "(string \<times> string) list \<Rightarrow> int \<Rightarrow> bool \<Rightarrow> LineVisibleRangesWithStyle list
   \<Rightarrow> (string \<times> string) list" where
  "actualRenderOneSelection output2 visibleStartLineNumber hasMultipleSelections visibleRanges =
     output2"

text \<open>A rectangle handed to \<^verbatim>\<open>rectangleRenderer.register(x, y, width, height, red, green,
  blue, alpha)\<close>; the entry that the renderer answers is identified with its eight numbers.\<close>

type_synonym RectangleRendererEntry = "rat \<times> rat \<times> rat \<times> rat \<times> rat \<times> rat \<times> rat \<times> rat"

definition register ::
  "rat \<Rightarrow> rat \<Rightarrow> rat \<Rightarrow> rat \<Rightarrow> rat \<Rightarrow> rat \<Rightarrow> rat \<Rightarrow> rat \<Rightarrow> RectangleRendererEntry" where
  "register x y w h red green blue alpha = (x, y, w, h, red, green, blue, alpha)"

text \<open>The loop of \<^verbatim>\<open>prepareRender\<close> over \<^verbatim>\<open>this._selections\<close>. The methods
  \<^verbatim>\<open>Range.isEmpty\<close> and \<^verbatim>\<open>ViewGpuContext.canRender\<close> (for the frame's options and
  viewport data) live in other files and are parameters.\<close>

fun prepareRenderLoop ::
  "(Range \<Rightarrow> bool) \<Rightarrow> (int \<Rightarrow> bool) \<Rightarrow> Range list \<Rightarrow> RectangleRendererEntry list
   \<Rightarrow> RectangleRendererEntry list" where
  "prepareRenderLoop isEmpty canRender [] gpuShapes = gpuShapes"
| "prepareRenderLoop isEmpty canRender (selection # rest) gpuShapes =
     (if isEmpty selection then prepareRenderLoop isEmpty canRender rest gpuShapes
      else if canRender (startLineNumber selection) then
        prepareRenderLoop isEmpty canRender rest
          (gpuShapes @ [register (of_int (startColumn selection) * 10)
                          (of_int (startLineNumber selection) * 10) 100 10 1 0 0 1])
      else prepareRenderLoop isEmpty canRender rest gpuShapes)"

text \<open>\<^verbatim>\<open>prepareRender(ctx)\<close>: the old shapes are disposed, \<^verbatim>\<open>_gpuShapes.length = 0\<close>, and
  the loop fills the array again. The result is the new \<^verbatim>\<open>_gpuShapes\<close>.\<close>

definition prepareRender ::
  "(Range \<Rightarrow> bool) \<Rightarrow> (int \<Rightarrow> bool) \<Rightarrow> Range list \<Rightarrow> RectangleRendererEntry list" where
  "prepareRender isEmpty canRender selections =
     prepareRenderLoop isEmpty canRender selections []"

section \<open>Notions used in the statements\<close>

text \<open>The four corners of a line's first range, \<open>None\<close> when the line has no range or the
  style is null.\<close>

definition startStyleTop :: "LineVisibleRangesWithStyle \<Rightarrow> CornerStyle option" where
  "startStyleTop l = (case ranges l of [] \<Rightarrow> None | r # _ \<Rightarrow> map_option top_style (startStyle r))"

definition startStyleBottom :: "LineVisibleRangesWithStyle \<Rightarrow> CornerStyle option" where
  "startStyleBottom l =
     (case ranges l of [] \<Rightarrow> None | r # _ \<Rightarrow> map_option bottom_style (startStyle r))"

definition endStyleTop :: "LineVisibleRangesWithStyle \<Rightarrow> CornerStyle option" where
  "endStyleTop l = (case ranges l of [] \<Rightarrow> None | r # _ \<Rightarrow> map_option top_style (endStyle r))"

definition endStyleBottom :: "LineVisibleRangesWithStyle \<Rightarrow> CornerStyle option" where
  "endStyleBottom l =
     (case ranges l of [] \<Rightarrow> None | r # _ \<Rightarrow> map_option bottom_style (endStyle r))"

text \<open>What classification reads of a line: its number and the extent of each range.\<close>

definition geom :: "LineVisibleRangesWithStyle \<Rightarrow> int \<times> (rat \<times> rat) list" where
  "geom l = (lineNumber l, map (\<lambda>r. (left r, width r)) (ranges l))"

definition firstGeom :: "LineVisibleRangesWithStyle list \<Rightarrow> nat \<Rightarrow> error + (rat \<times> rat)" where
  "firstGeom ls i =
     (case firstRange ls i of Inl e \<Rightarrow> Inl e | Inr r \<Rightarrow> Inr (left r, width r))"

text \<open>A geometry provider that answers every query with the same lines.\<close>

definition answering ::
  "LineVisibleRanges list \<Rightarrow> Range \<Rightarrow> bool \<Rightarrow> LineVisibleRanges list option" where
  "answering ls selection includeNewLines = Some ls"


text \<open>The previous-frame entry that the boundary lines borrow from, in the words of the
  description of the algorithm: the first line of the frame, in the order given, that has
  the line number and a range; the entry is the first range of that line. (The scan passes
  over a matching line without ranges, see \<open>scanPreviousFrame\<close>.) The descending search
  is the search on the reversed frame.\<close>

definition firstMatch ::
  "int \<Rightarrow> LineVisibleRangesWithStyle list \<Rightarrow> HorizontalRangeWithStyle option" where
  "firstMatch n frame =
     (case find (\<lambda>l. lineNumber l = n \<and> ranges l \<noteq> []) frame of
        None \<Rightarrow> None
      | Some l \<Rightarrow> (case ranges l of [] \<Rightarrow> None | r # _ \<Rightarrow> Some r))"

definition frameLines ::
  "LineVisibleRangesWithStyle list option \<Rightarrow> LineVisibleRangesWithStyle list" where
  "frameLines previousFrame = (case previousFrame of None \<Rightarrow> [] | Some pf \<Rightarrow> pf)"

text \<open>The pair of corners (of the start style and of the end style) that a boundary line
  takes from a previous-frame entry: the default EXTERN when there is no entry or its
  \<^verbatim>\<open>startStyle\<close> is null, else the entry's fields selected by \<open>sel\<close>.\<close>

definition cacheCorners ::
  "(IVisibleRangeEndPointStyle \<Rightarrow> CornerStyle) \<Rightarrow> HorizontalRangeWithStyle option
   \<Rightarrow> CornerStyle option \<times> CornerStyle option" where
  "cacheCorners sel entry =
     (case entry of None \<Rightarrow> (Some EXTERN, Some EXTERN)
      | Some r \<Rightarrow>
          (case startStyle r of None \<Rightarrow> (Some EXTERN, Some EXTERN)
           | Some s \<Rightarrow> (Some (sel s), map_option sel (endStyle r))))"

section \<open>Concrete inputs\<close>

text \<open>A view part with rounded selections whose typical half-width character is 8 pixels
  wide, so that epsilon is 2.\<close>

definition exThis :: SelectionsGpu where
  "exThis = \<lparr>roundedSelection = True, typicalHalfwidthCharacterWidth = 8\<rparr>"

text \<open>A line with one unclassified range, and a line with one classified range.\<close>

definition oneRange :: "int \<Rightarrow> rat \<Rightarrow> rat \<Rightarrow> LineVisibleRangesWithStyle" where
  "oneRange n l w =
     \<lparr>lineNumber = n, ranges = [\<lparr>left = l, width = w, startStyle = None, endStyle = None\<rparr>]\<rparr>"

definition classified ::
  "int \<Rightarrow> rat \<Rightarrow> rat \<Rightarrow> CornerStyle \<Rightarrow> CornerStyle \<Rightarrow> CornerStyle \<Rightarrow> CornerStyle
   \<Rightarrow> LineVisibleRangesWithStyle" where
  "classified n l w startTop startBottom endTop endBottom =
     \<lparr>lineNumber = n,
      ranges = [\<lparr>left = l, width = w,
                 startStyle = Some \<lparr>top_style = startTop, bottom_style = startBottom\<rparr>,
                 endStyle = Some \<lparr>top_style = endTop, bottom_style = endBottom\<rparr>\<rparr>]\<rparr>"

text \<open>A viewport of the lines 5 to 7, a wider one, and a selection in the lines 5 to 7.\<close>

definition exViewport :: Range where
  "exViewport = \<lparr>startLineNumber = 5, startColumn = 1, endLineNumber = 7, endColumn = 1\<rparr>"

definition wideViewport :: Range where
  "wideViewport = \<lparr>startLineNumber = 1, startColumn = 1, endLineNumber = 9, endColumn = 1\<rparr>"

definition exSelection :: Range where
  "exSelection = \<lparr>startLineNumber = 5, startColumn = 3, endLineNumber = 7, endColumn = 4\<rparr>"

text \<open>The geometry of the three-line scenario, a previous frame for it, and the result of
  classifying the scenario against that frame in \<open>exViewport\<close>.\<close>

definition exRaw :: "LineVisibleRanges list" where
  "exRaw = [\<lparr>raw_lineNumber = 5, raw_ranges = [\<lparr>left = 10, width = 50\<rparr>]\<rparr>,
            \<lparr>raw_lineNumber = 6, raw_ranges = [\<lparr>left = 0, width = 80\<rparr>]\<rparr>,
            \<lparr>raw_lineNumber = 7, raw_ranges = [\<lparr>left = 0, width = 30\<rparr>]\<rparr>]"

definition exCtx :: RenderingContext where
  "exCtx = \<lparr>visibleRange = exViewport, linesVisibleRangesForRange = answering exRaw\<rparr>"

definition exLines :: "LineVisibleRangesWithStyle list" where
  "exLines = [oneRange 5 10 50, oneRange 6 0 80, oneRange 7 0 30]"

definition exFrame :: "LineVisibleRangesWithStyle list" where
  "exFrame = [classified 5 10 50 INTERN EXTERN FLAT EXTERN,
              classified 6 0 80 EXTERN EXTERN EXTERN EXTERN,
              classified 7 0 30 EXTERN FLAT EXTERN INTERN]"

definition exOut :: "LineVisibleRangesWithStyle list" where
  "exOut = [classified 5 10 50 INTERN INTERN FLAT INTERN,
            classified 6 0 80 EXTERN FLAT EXTERN EXTERN,
            classified 7 0 30 FLAT FLAT INTERN INTERN]"

text \<open>A line with two ranges and a line with none, each as the whole answer of the
  geometry provider.\<close>

definition gapLine :: LineVisibleRanges where
  "gapLine = \<lparr>raw_lineNumber = 5,
               raw_ranges = [\<lparr>left = 0, width = 10\<rparr>, \<lparr>left = 20, width = 10\<rparr>]\<rparr>"

definition gapCtx :: RenderingContext where
  "gapCtx = \<lparr>visibleRange = exViewport, linesVisibleRangesForRange = answering [gapLine]\<rparr>"

definition emptyLine :: LineVisibleRanges where
  "emptyLine = \<lparr>raw_lineNumber = 5, raw_ranges = []\<rparr>"

definition emptyLineCtx :: RenderingContext where
  "emptyLineCtx =
     \<lparr>visibleRange = exViewport, linesVisibleRangesForRange = answering [emptyLine]\<rparr>"

text \<open>The doubles that the literals 0.4, 1.6, 2.4 and 3.6 denote.\<close>

definition double_0_4 :: rat where
  "double_0_4 = 3602879701896397 / 9007199254740992"

definition double_1_6 :: rat where
  "double_1_6 = 3602879701896397 / 2251799813685248"

definition double_2_4 :: rat where
  "double_2_4 = 5404319552844595 / 2251799813685248"

definition double_3_6 :: rat where
  "double_3_6 = 8106479329266893 / 2251799813685248"

lemmas eval_defs = exThis_def oneRange_def classified_def enrichVisibleRangesWithStyle_def
  previousFrameTop_def previousFrameBottom_def dropUnstyled_def enrichLoop.simps computeStyle_def
  firstRange_def lookAbove_def lookBelow_def borrowed_def abs_num_def assignStyle_def
  startStyleTop_def startStyleBottom_def endStyleTop_def endStyleBottom_def

section \<open>The loop and the geometry it reads\<close>

lemma geom_assignStyle: "geom (assignStyle l s e) = geom l"
  by (simp add: geom_def assignStyle_def split: list.splits)

lemma geom_nth:
  assumes "map geom xs = map geom ys" and "i < length ys"
  shows "geom (xs ! i) = geom (ys ! i)"
proof -
  from assms have "length xs = length ys" by (metis length_map)
  with assms show ?thesis by (metis nth_map)
qed

lemma firstGeom_cong:
  assumes "map geom xs = map geom ys"
  shows "firstGeom xs i = firstGeom ys i"
proof -
  from assms have len: "length xs = length ys" by (metis length_map)
  show ?thesis
  proof (cases "i < length ys")
    case True
    with assms have "geom (xs ! i) = geom (ys ! i)" by (rule geom_nth)
    then show ?thesis using True len
      by (auto simp: firstGeom_def firstRange_def geom_def split: list.splits)
  next
    case False
    then show ?thesis using len by (simp add: firstGeom_def firstRange_def)
  qed
qed

lemma lookAbove_firstGeom:
  "lookAbove eps pt i ls cl cr =
     (if i > 0 then
        (case firstGeom ls (i - 1) of Inl e \<Rightarrow> Inl e
         | Inr (prevLeft, w) \<Rightarrow>
             Inr (if abs_num (cl - prevLeft) < eps then FLAT
                  else if cl > prevLeft then INTERN else EXTERN,
                  if abs_num (cr - (prevLeft + w)) < eps then FLAT
                  else if prevLeft < cr \<and> cr < prevLeft + w then INTERN else EXTERN))
      else (case pt of None \<Rightarrow> Inr (EXTERN, EXTERN) | Some p \<Rightarrow> borrowed top_style p))"
  by (simp add: lookAbove_def firstGeom_def Let_def split: sum.splits)

lemma lookBelow_firstGeom:
  "lookBelow eps pb i len ls cl cr =
     (if i + 1 < len then
        (case firstGeom ls (i + 1) of Inl e \<Rightarrow> Inl e
         | Inr (nextLeft, w) \<Rightarrow>
             Inr (if abs_num (cl - nextLeft) < eps then FLAT
                  else if nextLeft < cl \<and> cl < nextLeft + w then INTERN else EXTERN,
                  if abs_num (cr - (nextLeft + w)) < eps then FLAT
                  else if cr < nextLeft + w then INTERN else EXTERN))
      else (case pb of None \<Rightarrow> Inr (EXTERN, EXTERN) | Some p \<Rightarrow> borrowed bottom_style p))"
  by (simp add: lookBelow_def firstGeom_def Let_def split: sum.splits)

lemma computeStyle_firstGeom:
  "computeStyle eps pt pb i len ls =
     (case firstGeom ls i of Inl e \<Rightarrow> Inl e
      | Inr (cl, w) \<Rightarrow>
         (case lookAbove eps pt i ls cl (cl + w) of Inl e \<Rightarrow> Inl e
          | Inr (startTop, endTop) \<Rightarrow>
             (case lookBelow eps pb i len ls cl (cl + w) of Inl e \<Rightarrow> Inl e
              | Inr (startBottom, endBottom) \<Rightarrow>
                 Inr (\<lparr>top_style = startTop, bottom_style = startBottom\<rparr>,
                      \<lparr>top_style = endTop, bottom_style = endBottom\<rparr>))))"
  by (simp add: computeStyle_def firstGeom_def Let_def split: sum.splits)

lemma lookAbove_cong:
  assumes "map geom xs = map geom ys"
  shows "lookAbove eps pt i xs cl cr = lookAbove eps pt i ys cl cr"
  by (simp add: lookAbove_firstGeom firstGeom_cong [OF assms])

lemma lookBelow_cong:
  assumes "map geom xs = map geom ys"
  shows "lookBelow eps pb i len xs cl cr = lookBelow eps pb i len ys cl cr"
  by (simp add: lookBelow_firstGeom firstGeom_cong [OF assms])

text \<open>The styles computed for a line depend on the geometry only, never on the styles
  that are already stored in the array.\<close>

lemma computeStyle_cong:
  assumes "map geom xs = map geom ys"
  shows "computeStyle eps pt pb i len xs = computeStyle eps pt pb i len ys"
  unfolding computeStyle_firstGeom firstGeom_cong [OF assms]
    lookAbove_cong [OF assms] lookBelow_cong [OF assms] by (rule refl)

lemma geom_update:
  assumes "map geom cur = map geom ls"
  shows "map geom (cur[i := assignStyle (cur ! i) s e]) = map geom ls"
proof -
  have "map geom (cur[i := assignStyle (cur ! i) s e]) = (map geom cur)[i := geom (cur ! i)]"
    by (simp add: map_update geom_assignStyle)
  also have "\<dots> = map geom cur"
    by (cases "i < length cur") (simp_all add: list_update_same_conv list_update_beyond)
  finally show ?thesis using assms by simp
qed

text \<open>The loop invariant: when the loop started at \<open>i\<close> on an array \<open>cur\<close> with the
  geometry of \<open>ls\<close> returns \<open>out\<close>, the lines before \<open>i\<close> are untouched and every later
  line carries the styles that the loop body computes for it on \<open>ls\<close>.\<close>

lemma enrichLoop_char:
  "enrichLoop eps pt pb i len cur = Inr out \<Longrightarrow> map geom cur = map geom ls \<Longrightarrow>
   len = length ls \<Longrightarrow>
   length out = length ls \<and> (\<forall>j<i. out ! j = cur ! j) \<and>
   (\<forall>j. i \<le> j \<and> j < len \<longrightarrow>
      (\<exists>s e. computeStyle eps pt pb j len ls = Inr (s, e) \<and> out ! j = assignStyle (cur ! j) s e))"
proof (induction eps pt pb i len cur rule: enrichLoop.induct)
  case (1 eps pt pb i len cur)
  have lencur: "length cur = length ls" using "1.prems"(2) by (metis length_map)
  show ?case
  proof (cases "i < len")
    case False
    with "1.prems" have "out = cur" by (simp add: enrichLoop.simps)
    with False lencur show ?thesis by auto
  next
    case True
    from "1.prems"(1) True obtain s e where
      cs: "computeStyle eps pt pb i len cur = Inr (s, e)" and
      rec: "enrichLoop eps pt pb (i + 1) len (cur[i := assignStyle (cur ! i) s e]) = Inr out"
      by (subst (asm) enrichLoop.simps) (auto split: sum.splits)
    let ?cur' = "cur[i := assignStyle (cur ! i) s e]"
    have g': "map geom ?cur' = map geom ls" using "1.prems"(2) by (rule geom_update)
    have csl: "computeStyle eps pt pb i len ls = Inr (s, e)"
      using cs computeStyle_cong [OF "1.prems"(2)] by simp
    from "1.IH" [OF True cs refl rec g' "1.prems"(3)]
    have ih1: "length out = length ls"
      and ih2: "\<forall>j<i + 1. out ! j = ?cur' ! j"
      and ih3: "\<forall>j. i + 1 \<le> j \<and> j < len \<longrightarrow>
         (\<exists>s e. computeStyle eps pt pb j len ls = Inr (s, e) \<and>
                out ! j = assignStyle (?cur' ! j) s e)"
      by blast+
    have a: "\<forall>j<i. out ! j = cur ! j" using ih2 by simp
    have outi: "out ! i = assignStyle (cur ! i) s e"
      using ih2 True lencur "1.prems"(3) by simp
    have b: "\<forall>j. i \<le> j \<and> j < len \<longrightarrow>
      (\<exists>s e. computeStyle eps pt pb j len ls = Inr (s, e) \<and> out ! j = assignStyle (cur ! j) s e)"
    proof (intro allI impI)
      fix j assume j: "i \<le> j \<and> j < len"
      show "\<exists>s e. computeStyle eps pt pb j len ls = Inr (s, e) \<and>
                  out ! j = assignStyle (cur ! j) s e"
      proof (cases "j = i")
        case True
        with csl outi show ?thesis by blast
      next
        case False
        with j have "i + 1 \<le> j \<and> j < len" by simp
        with ih3 obtain s' e' where "computeStyle eps pt pb j len ls = Inr (s', e')"
          "out ! j = assignStyle (?cur' ! j) s' e'" by blast
        with False show ?thesis by auto
      qed
    qed
    from ih1 a b show ?thesis by blast
  qed
qed

section \<open>What the loop stores for a line\<close>

lemma abs_num_abs: "abs_num n = \<bar>n\<bar>"
  by (simp add: abs_num_def)

lemma enrich_length:
  assumes "enrichVisibleRangesWithStyle this vp ls pf = Inr out"
  shows "length out = length ls"
  using enrichLoop_char [of _ _ _ 0 "length ls" ls out ls] assms
  by (simp add: enrichVisibleRangesWithStyle_def)

lemma enrich_nth:
  assumes "enrichVisibleRangesWithStyle this vp ls pf = Inr out" and "j < length ls"
  shows "\<exists>s e. computeStyle (typicalHalfwidthCharacterWidth this / 4)
                 (previousFrameTop vp ls pf) (previousFrameBottom vp ls pf) j (length ls) ls
               = Inr (s, e) \<and> out ! j = assignStyle (ls ! j) s e"
  using enrichLoop_char [of _ _ _ 0 "length ls" ls out ls] assms
  by (simp add: enrichVisibleRangesWithStyle_def)

lemma computeStyle_InrD:
  assumes "computeStyle eps pt pb j len ls = Inr (s, e)"
  shows "\<exists>cur st et sb eb. firstRange ls j = Inr cur \<and>
           lookAbove eps pt j ls (left cur) (left cur + width cur) = Inr (st, et) \<and>
           lookBelow eps pb j len ls (left cur) (left cur + width cur) = Inr (sb, eb) \<and>
           s = \<lparr>top_style = st, bottom_style = sb\<rparr> \<and> e = \<lparr>top_style = et, bottom_style = eb\<rparr>"
  using assms by (auto simp: computeStyle_def Let_def split: sum.splits prod.splits)

lemma firstRange_InrD:
  assumes "firstRange ls j = Inr cur"
  shows "j < length ls \<and> (\<exists>rest. ranges (ls ! j) = cur # rest)"
  using assms by (auto simp: firstRange_def split: if_splits list.splits)

lemma enrich_firstRange:
  assumes "enrichVisibleRangesWithStyle this vp ls pf = Inr out" and "j < length ls"
  shows "\<exists>cur. firstRange ls j = Inr cur"
  using enrich_nth [OF assms] computeStyle_InrD by blast

lemma corners_assignStyle:
  assumes "ranges l = cur # rest"
  shows "startStyleTop (assignStyle l s e) = Some (top_style s)"
    and "startStyleBottom (assignStyle l s e) = Some (bottom_style s)"
    and "endStyleTop (assignStyle l s e) = Some (top_style e)"
    and "endStyleBottom (assignStyle l s e) = Some (bottom_style e)"
  using assms
  by (simp_all add: assignStyle_def startStyleTop_def startStyleBottom_def endStyleTop_def
      endStyleBottom_def)

text \<open>The corners stored for line \<open>j\<close> are the results of the two blocks of the loop body,
  evaluated on the geometry of the input.\<close>

lemma enrich_corners:
  assumes ok: "enrichVisibleRangesWithStyle this vp ls pf = Inr out"
    and cur: "firstRange ls j = Inr cur"
  shows "lookAbove (typicalHalfwidthCharacterWidth this / 4) (previousFrameTop vp ls pf) j ls
           (left cur) (left cur + width cur)
         = Inr (st, et) \<Longrightarrow> startStyleTop (out ! j) = Some st \<and> endStyleTop (out ! j) = Some et"
    and "lookBelow (typicalHalfwidthCharacterWidth this / 4) (previousFrameBottom vp ls pf) j
           (length ls) ls (left cur) (left cur + width cur)
         = Inr (sb, eb) \<Longrightarrow>
         startStyleBottom (out ! j) = Some sb \<and> endStyleBottom (out ! j) = Some eb"
    and "\<exists>st et. lookAbove (typicalHalfwidthCharacterWidth this / 4) (previousFrameTop vp ls pf) j ls
           (left cur) (left cur + width cur) = Inr (st, et)"
    and "\<exists>sb eb. lookBelow (typicalHalfwidthCharacterWidth this / 4) (previousFrameBottom vp ls pf) j
           (length ls) ls (left cur) (left cur + width cur) = Inr (sb, eb)"
proof -
  from firstRange_InrD [OF cur] obtain rest where j: "j < length ls"
    and r: "ranges (ls ! j) = cur # rest" by blast
  from enrich_nth [OF ok j] obtain s e where
    cs: "computeStyle (typicalHalfwidthCharacterWidth this / 4)
           (previousFrameTop vp ls pf) (previousFrameBottom vp ls pf) j (length ls) ls = Inr (s, e)"
    and o: "out ! j = assignStyle (ls ! j) s e" by blast
  from computeStyle_InrD [OF cs] cur obtain st' et' sb' eb' where
    a: "lookAbove (typicalHalfwidthCharacterWidth this / 4) (previousFrameTop vp ls pf) j ls
           (left cur) (left cur + width cur) = Inr (st', et')" and
    b: "lookBelow (typicalHalfwidthCharacterWidth this / 4) (previousFrameBottom vp ls pf) j
           (length ls) ls (left cur) (left cur + width cur) = Inr (sb', eb')" and
    s: "s = \<lparr>top_style = st', bottom_style = sb'\<rparr>" and
    e: "e = \<lparr>top_style = et', bottom_style = eb'\<rparr>" by auto
  show "lookAbove (typicalHalfwidthCharacterWidth this / 4) (previousFrameTop vp ls pf) j ls
           (left cur) (left cur + width cur)
         = Inr (st, et) \<Longrightarrow> startStyleTop (out ! j) = Some st \<and> endStyleTop (out ! j) = Some et"
    using a o s e corners_assignStyle [OF r] by simp
  show "lookBelow (typicalHalfwidthCharacterWidth this / 4) (previousFrameBottom vp ls pf) j
           (length ls) ls (left cur) (left cur + width cur)
         = Inr (sb, eb) \<Longrightarrow>
         startStyleBottom (out ! j) = Some sb \<and> endStyleBottom (out ! j) = Some eb"
    using b o s e corners_assignStyle [OF r] by simp
  show "\<exists>st et. lookAbove (typicalHalfwidthCharacterWidth this / 4) (previousFrameTop vp ls pf) j ls
           (left cur) (left cur + width cur) = Inr (st, et)" using a by blast
  show "\<exists>sb eb. lookBelow (typicalHalfwidthCharacterWidth this / 4) (previousFrameBottom vp ls pf) j
           (length ls) ls (left cur) (left cur + width cur) = Inr (sb, eb)" using b by blast
qed

text \<open>The comparison with the line below, and with the line above.\<close>

lemma lookBelow_next:
  assumes "i + 1 < len" and "firstRange ls (i + 1) = Inr next"
  shows "lookBelow eps pb i len ls cl cr =
     Inr (if \<bar>cl - left next\<bar> < eps then FLAT
          else if left next < cl \<and> cl < left next + width next then INTERN else EXTERN,
          if \<bar>cr - (left next + width next)\<bar> < eps then FLAT
          else if cr < left next + width next then INTERN else EXTERN)"
  using assms by (simp add: lookBelow_def Let_def abs_num_abs)

lemma lookAbove_prev:
  assumes "0 < i" and "firstRange ls (i - 1) = Inr prev"
  shows "lookAbove eps pt i ls cl cr =
     Inr (if \<bar>cl - left prev\<bar> < eps then FLAT
          else if cl > left prev then INTERN else EXTERN,
          if \<bar>cr - (left prev + width prev)\<bar> < eps then FLAT
          else if left prev < cr \<and> cr < left prev + width prev then INTERN else EXTERN)"
  using assms by (simp add: lookAbove_def Let_def abs_num_abs)

text \<open>Interior lines read neither borrowed range.\<close>

lemma lookAbove_interior:
  "0 < i \<Longrightarrow> lookAbove eps pt i ls cl cr = lookAbove eps None i ls cl cr"
  by (simp add: lookAbove_def)

lemma lookBelow_interior:
  "i + 1 < len \<Longrightarrow> lookBelow eps pb i len ls cl cr = lookBelow eps None i len ls cl cr"
  by (simp add: lookBelow_def)

lemma computeStyle_interior:
  assumes "0 < i" and "i + 1 < len"
  shows "computeStyle eps pt pb i len ls = computeStyle eps pt' pb' i len ls"
  unfolding computeStyle_def
    lookAbove_interior [OF assms(1), of eps pt] lookAbove_interior [OF assms(1), of eps pt']
    lookBelow_interior [OF assms(2), of eps pb] lookBelow_interior [OF assms(2), of eps pb']
  by (rule refl)

section \<open>Termination with a result\<close>

text \<open>The loop returns a result when the loop body succeeds on every line.\<close>

lemma enrichLoop_total:
  "map geom cur = map geom ls \<Longrightarrow> len = length ls \<Longrightarrow>
   (\<forall>j. i \<le> j \<and> j < len \<longrightarrow> (\<exists>se. computeStyle eps pt pb j len ls = Inr se)) \<Longrightarrow>
   \<exists>out. enrichLoop eps pt pb i len cur = Inr out"
proof (induction eps pt pb i len cur rule: enrichLoop.induct)
  case (1 eps pt pb i len cur)
  show ?case
  proof (cases "i < len")
    case False
    then show ?thesis by (simp add: enrichLoop.simps)
  next
    case True
    with "1.prems"(3) obtain s e where "computeStyle eps pt pb i len ls = Inr (s, e)"
      by (metis le_refl surj_pair)
    then have cs: "computeStyle eps pt pb i len cur = Inr (s, e)"
      using computeStyle_cong [OF "1.prems"(1)] by simp
    have g': "map geom (cur[i := assignStyle (cur ! i) s e]) = map geom ls"
      using "1.prems"(1) by (rule geom_update)
    have rest: "\<forall>j. i + 1 \<le> j \<and> j < len \<longrightarrow> (\<exists>se. computeStyle eps pt pb j len ls = Inr se)"
      using "1.prems"(3) by auto
    from "1.IH" [OF True cs refl g' "1.prems"(2) rest] obtain out where
      "enrichLoop eps pt pb (i + 1) len (cur[i := assignStyle (cur ! i) s e]) = Inr out" by blast
    with True cs show ?thesis by (subst enrichLoop.simps) simp
  qed
qed

lemma assignStyle_idem: "assignStyle (assignStyle l s e) s e = assignStyle l s e"
  by (simp add: assignStyle_def split: list.splits)

lemma enrich_geom:
  assumes "enrichVisibleRangesWithStyle this vp ls pf = Inr out"
  shows "map geom out = map geom ls"
proof (rule nth_equalityI)
  show "length (map geom out) = length (map geom ls)"
    using enrich_length [OF assms] by simp
next
  fix j assume "j < length (map geom out)"
  then have j: "j < length ls" using enrich_length [OF assms] by simp
  from enrich_nth [OF assms j] obtain s e where "out ! j = assignStyle (ls ! j) s e" by blast
  then show "map geom out ! j = map geom ls ! j"
    using j enrich_length [OF assms] by (simp add: geom_assignStyle)
qed

lemma previousFrame_geom:
  assumes "map geom xs = map geom ys"
  shows "previousFrameTop vp xs pf = previousFrameTop vp ys pf"
    and "previousFrameBottom vp xs pf = previousFrameBottom vp ys pf"
proof -
  from assms have len: "length xs = length ys" by (metis length_map)
  have "ys \<noteq> [] \<Longrightarrow> lineNumber (xs ! 0) = lineNumber (ys ! 0)"
    using geom_nth [OF assms, of 0] by (simp add: geom_def)
  moreover have "ys \<noteq> [] \<Longrightarrow> lineNumber (xs ! (length ys - 1)) = lineNumber (ys ! (length ys - 1))"
    using geom_nth [OF assms, of "length ys - 1"] by (simp add: geom_def)
  ultimately show "previousFrameTop vp xs pf = previousFrameTop vp ys pf"
    and "previousFrameBottom vp xs pf = previousFrameBottom vp ys pf"
    using len by (auto simp: previousFrameTop_def previousFrameBottom_def split: option.splits)
qed

section \<open>The previous frame\<close>

lemma scanPreviousFrame_firstMatch: "scanPreviousFrame n pf = firstMatch n pf"
  by (induction pf) (auto simp: firstMatch_def split: list.splits)

lemma scanPreviousFrame_mem:
  "scanPreviousFrame n pf = Some p \<Longrightarrow> \<exists>l\<in>set pf. p \<in> set (ranges l)"
  by (induction pf) (auto split: if_splits list.splits)

lemma dropUnstyled_Some:
  "dropUnstyled x = Some p \<Longrightarrow> x = Some p \<and> startStyle p \<noteq> None"
  by (cases x) (auto simp: dropUnstyled_def split: if_splits)

lemma previousFrameTop_Some:
  assumes "previousFrameTop vp ls (Some pf) = Some p"
  shows "scanPreviousFrame (lineNumber (ls ! 0)) pf = Some p \<and> startStyle p \<noteq> None"
proof -
  from assms have "dropUnstyled (scanPreviousFrame (lineNumber (ls ! 0)) pf) = Some p"
    by (simp add: previousFrameTop_def Let_def dropUnstyled_def split: if_splits)
  then show ?thesis by (rule dropUnstyled_Some)
qed

lemma previousFrameBottom_Some:
  assumes "previousFrameBottom vp ls (Some pf) = Some p"
  shows "scanPreviousFrame (lineNumber (ls ! (length ls - 1))) (rev pf) = Some p
         \<and> startStyle p \<noteq> None"
proof -
  from assms
  have "dropUnstyled (scanPreviousFrame (lineNumber (ls ! (length ls - 1))) (rev pf)) = Some p"
    by (simp add: previousFrameBottom_def Let_def dropUnstyled_def split: if_splits)
  then show ?thesis by (rule dropUnstyled_Some)
qed

lemma previousFrame_mem:
  assumes "previousFrameTop vp ls (Some pf) = Some p \<or> previousFrameBottom vp ls (Some pf) = Some p"
  shows "startStyle p \<noteq> None \<and> (\<exists>l\<in>set pf. p \<in> set (ranges l))"
  using assms
proof
  assume "previousFrameTop vp ls (Some pf) = Some p"
  from previousFrameTop_Some [OF this] scanPreviousFrame_mem show ?thesis by blast
next
  assume "previousFrameBottom vp ls (Some pf) = Some p"
  from previousFrameBottom_Some [OF this] scanPreviousFrame_mem [of _ "rev pf" p]
  show ?thesis by auto
qed

lemma borrowed_cacheCorners:
  assumes "(case dropUnstyled entry of None \<Rightarrow> Inr (EXTERN, EXTERN) | Some p \<Rightarrow> borrowed sel p)
           = Inr (st, et)"
  shows "cacheCorners sel entry = (Some st, Some et)"
  using assms
  by (auto simp: dropUnstyled_def cacheCorners_def borrowed_def split: option.splits if_splits)

lemma previousFrameTop_frameLines:
  "ls \<noteq> [] \<Longrightarrow> previousFrameTop vp ls pf =
     dropUnstyled (if lineNumber (ls ! 0) = startLineNumber vp
                   then firstMatch (lineNumber (ls ! 0)) (frameLines pf) else None)"
  by (cases pf)
     (auto simp: previousFrameTop_def frameLines_def dropUnstyled_def firstMatch_def Let_def
        scanPreviousFrame_firstMatch)

lemma previousFrameBottom_frameLines:
  "ls \<noteq> [] \<Longrightarrow> previousFrameBottom vp ls pf =
     dropUnstyled (if lineNumber (ls ! (length ls - 1)) = endLineNumber vp
                   then firstMatch (lineNumber (ls ! (length ls - 1))) (rev (frameLines pf))
                   else None)"
  by (cases pf)
     (auto simp: previousFrameBottom_def frameLines_def dropUnstyled_def firstMatch_def Let_def
        scanPreviousFrame_firstMatch)

section \<open>Styles are null together\<close>

lemma gaps_iff: "visibleRangesHaveGaps ls = (\<exists>l\<in>set ls. length (ranges l) > 1)"
  by (induction ls) auto

lemma toStyled_unstyled:
  "r \<in> set (ranges (toStyled l)) \<Longrightarrow> startStyle r = None \<and> endStyle r = None"
  by (auto simp: toStyled_def toStyledRange_def)

lemma assignStyle_inv:
  assumes "\<forall>r\<in>set (ranges l). (startStyle r = None) = (endStyle r = None)"
  shows "\<forall>r\<in>set (ranges (assignStyle l s e)). (startStyle r = None) = (endStyle r = None)"
  using assms by (auto simp: assignStyle_def split: list.splits)

lemma getVisibleRangesWithStyle_inv:
  assumes "getVisibleRangesWithStyle this selection ctx previousFrame = Inr out"
    and "l \<in> set out" and "r \<in> set (ranges l)"
  shows "(startStyle r = None) = (endStyle r = None)"
proof -
  define raw where "raw = (case linesVisibleRangesForRange ctx selection True of
               None \<Rightarrow> [] | Some ls \<Rightarrow> ls)"
  let ?ls = "map toStyled raw"
  have base: "\<forall>l\<in>set ?ls. \<forall>r\<in>set (ranges l). (startStyle r = None) = (endStyle r = None)"
    using toStyled_unstyled by auto
  show ?thesis
  proof (cases "\<not> visibleRangesHaveGaps ?ls \<and> roundedSelection this")
    case False
    with assms(1) have "out = ?ls"
      by (auto simp: getVisibleRangesWithStyle_def Let_def raw_def)
    with base assms(2,3) show ?thesis by blast
  next
    case True
    with assms(1)
    have en: "enrichVisibleRangesWithStyle this (visibleRange ctx) ?ls previousFrame = Inr out"
      by (auto simp: getVisibleRangesWithStyle_def Let_def raw_def)
    from assms(2) obtain j where j: "j < length out" "out ! j = l" by (auto simp: in_set_conv_nth)
    then have j': "j < length ?ls" using enrich_length [OF en] by simp
    from enrich_nth [OF en j'] obtain s e where "out ! j = assignStyle (?ls ! j) s e" by blast
    moreover have "\<forall>r\<in>set (ranges (?ls ! j)). (startStyle r = None) = (endStyle r = None)"
      using base nth_mem [OF j'] by blast
    ultimately have "\<forall>r\<in>set (ranges (out ! j)). (startStyle r = None) = (endStyle r = None)"
      using assignStyle_inv by simp
    with j(2) assms(3) show ?thesis by simp
  qed
qed

section \<open>The shapes of a frame\<close>

lemma prepareRenderLoop_eq:
  "prepareRenderLoop isEmpty canRender selections gpuShapes =
     gpuShapes @ map (\<lambda>s. register (of_int (startColumn s) * 10)
                              (of_int (startLineNumber s) * 10) 100 10 1 0 0 1)
                   (filter (\<lambda>s. \<not> isEmpty s \<and> canRender (startLineNumber s)) selections)"
  by (induction selections arbitrary: gpuShapes) auto

section \<open>When the pipeline raises\<close>

text \<open>Classification raises on every input that has a line without a range.\<close>

lemma enrich_raises_without_range:
  assumes "j < length ls" and "ranges (ls ! j) = []"
  shows "enrichVisibleRangesWithStyle this vp ls pf = Inl TypeError"
proof (cases "enrichVisibleRangesWithStyle this vp ls pf")
  case (Inl e)
  then show ?thesis by (cases e) simp
next
  case (Inr out)
  from enrich_firstRange [OF Inr assms(1)] assms show ?thesis
    by (simp add: firstRange_def)
qed

lemma borrowed_ok:
  assumes "startStyle p \<noteq> None" and "endStyle p \<noteq> None"
  shows "\<exists>c. borrowed sel p = Inr c"
  using assms by (auto simp: borrowed_def)

lemma computeStyle_ok:
  assumes rs: "\<forall>j<length ls. ranges (ls ! j) \<noteq> []"
    and pt: "\<forall>p. pt = Some p \<longrightarrow> startStyle p \<noteq> None \<and> endStyle p \<noteq> None"
    and pb: "\<forall>p. pb = Some p \<longrightarrow> startStyle p \<noteq> None \<and> endStyle p \<noteq> None"
    and j: "j < length ls"
  shows "\<exists>se. computeStyle eps pt pb j (length ls) ls = Inr se"
proof -
  have fr: "\<And>k. k < length ls \<Longrightarrow> \<exists>r. firstRange ls k = Inr r"
    using rs by (auto simp: firstRange_def split: list.splits)
  from fr [OF j] obtain cur where cur: "firstRange ls j = Inr cur" by blast
  have above: "\<exists>c. lookAbove eps pt j ls (left cur) (left cur + width cur) = Inr c"
  proof (cases "0 < j")
    case True
    then have "j - 1 < length ls" using j by simp
    from fr [OF this] obtain prev where "firstRange ls (j - 1) = Inr prev" by blast
    with True show ?thesis by (simp add: lookAbove_def Let_def)
  next
    case False
    then show ?thesis using pt borrowed_ok [of _ top_style]
      by (cases pt) (auto simp: lookAbove_def)
  qed
  have below: "\<exists>c. lookBelow eps pb j (length ls) ls (left cur) (left cur + width cur) = Inr c"
  proof (cases "j + 1 < length ls")
    case True
    from fr [OF this] obtain nxt where "firstRange ls (j + 1) = Inr nxt" by blast
    with True show ?thesis by (simp add: lookBelow_def Let_def)
  next
    case False
    then show ?thesis using pb borrowed_ok [of _ bottom_style]
      by (cases pb) (auto simp: lookBelow_def)
  qed
  from above obtain st et where
    a: "lookAbove eps pt j ls (left cur) (left cur + width cur) = Inr (st, et)"
    by (metis surj_pair)
  from below obtain sb eb where
    b: "lookBelow eps pb j (length ls) ls (left cur) (left cur + width cur) = Inr (sb, eb)"
    by (metis surj_pair)
  from cur a b show ?thesis by (simp add: computeStyle_def Let_def)
qed

text \<open>The pipeline returns a result when every visible line has a range and the styles of
  the previous frame are null together.\<close>

lemma getVisibleRangesWithStyle_total:
  assumes q: "linesVisibleRangesForRange ctx selection True = Some raw"
    and rs: "\<forall>l\<in>set raw. raw_ranges l \<noteq> []"
    and inv: "\<forall>l\<in>set (frameLines previousFrame). \<forall>r\<in>set (ranges l).
               (startStyle r = None) = (endStyle r = None)"
  shows "\<exists>out. getVisibleRangesWithStyle this selection ctx previousFrame = Inr out"
proof (cases "\<not> visibleRangesHaveGaps (map toStyled raw) \<and> roundedSelection this")
  case False
  then show ?thesis using q by (auto simp: getVisibleRangesWithStyle_def Let_def)
next
  case True
  let ?ls = "map toStyled raw"
  let ?pt = "previousFrameTop (visibleRange ctx) ?ls previousFrame"
  let ?pb = "previousFrameBottom (visibleRange ctx) ?ls previousFrame"
  have rs': "\<forall>j<length ?ls. ranges (?ls ! j) \<noteq> []"
    using rs by (simp add: toStyled_def)
  have b: "\<forall>p. ?pt = Some p \<or> ?pb = Some p \<longrightarrow> startStyle p \<noteq> None \<and> endStyle p \<noteq> None"
  proof (intro allI impI)
    fix p assume p: "?pt = Some p \<or> ?pb = Some p"
    then obtain pf where pf: "previousFrame = Some pf"
      by (cases previousFrame) (auto simp: previousFrameTop_def previousFrameBottom_def)
    from p previousFrame_mem [of "visibleRange ctx" ?ls pf p] pf
    obtain l where "startStyle p \<noteq> None" "l \<in> set pf" "p \<in> set (ranges l)" by blast
    with inv pf show "startStyle p \<noteq> None \<and> endStyle p \<noteq> None"
      by (auto simp: frameLines_def)
  qed
  have "\<forall>j. 0 \<le> j \<and> j < length ?ls \<longrightarrow>
      (\<exists>se. computeStyle (typicalHalfwidthCharacterWidth this / 4) ?pt ?pb j (length ?ls) ?ls
             = Inr se)"
    using computeStyle_ok [OF rs', of ?pt ?pb] b by blast
  from enrichLoop_total [OF refl refl this] obtain out where
    "enrichVisibleRangesWithStyle this (visibleRange ctx) ?ls previousFrame = Inr out"
    by (auto simp: enrichVisibleRangesWithStyle_def)
  with True q show ?thesis by (auto simp: getVisibleRangesWithStyle_def Let_def)
qed

text \<open>When every line of the frame has a range, the entry is the first range of the first
  line with the number.\<close>

lemma firstMatch_find:
  assumes "\<forall>l\<in>set frame. ranges l \<noteq> []"
  shows "firstMatch n frame = map_option (\<lambda>l. hd (ranges l)) (find (\<lambda>l. lineNumber l = n) frame)"
  using assms by (induction frame) (auto simp: firstMatch_def split: list.splits)

section \<open>The loop in the arithmetic of doubles\<close>

text \<open>The rounding of binary64 is odd.\<close>

lemma round64_uminus: "round64 (- x) = - round64 x"
  by (simp add: round64_def Let_def)

text \<open>The loop with rounding, as the exact loop, reads the geometry only.\<close>

lemma lookAbove_rounded_firstGeom:
  "lookAbove_rounded rnd eps pt i ls cl cr =
     (if i > 0 then
        (case firstGeom ls (i - 1) of Inl e \<Rightarrow> Inl e
         | Inr (prevLeft, w) \<Rightarrow>
             Inr (if abs_num (rnd (cl - prevLeft)) < eps then FLAT
                  else if cl > prevLeft then INTERN else EXTERN,
                  if abs_num (rnd (cr - rnd (prevLeft + w))) < eps then FLAT
                  else if prevLeft < cr \<and> cr < rnd (prevLeft + w) then INTERN else EXTERN))
      else (case pt of None \<Rightarrow> Inr (EXTERN, EXTERN) | Some p \<Rightarrow> borrowed top_style p))"
  by (simp add: lookAbove_rounded_def firstGeom_def Let_def split: sum.splits)

lemma lookBelow_rounded_firstGeom:
  "lookBelow_rounded rnd eps pb i len ls cl cr =
     (if i + 1 < len then
        (case firstGeom ls (i + 1) of Inl e \<Rightarrow> Inl e
         | Inr (nextLeft, w) \<Rightarrow>
             Inr (if abs_num (rnd (cl - nextLeft)) < eps then FLAT
                  else if nextLeft < cl \<and> cl < rnd (nextLeft + w) then INTERN else EXTERN,
                  if abs_num (rnd (cr - rnd (nextLeft + w))) < eps then FLAT
                  else if cr < rnd (nextLeft + w) then INTERN else EXTERN))
      else (case pb of None \<Rightarrow> Inr (EXTERN, EXTERN) | Some p \<Rightarrow> borrowed bottom_style p))"
  by (simp add: lookBelow_rounded_def firstGeom_def Let_def split: sum.splits)

lemma computeStyle_rounded_firstGeom:
  "computeStyle_rounded rnd eps pt pb i len ls =
     (case firstGeom ls i of Inl e \<Rightarrow> Inl e
      | Inr (cl, w) \<Rightarrow>
         (case lookAbove_rounded rnd eps pt i ls cl (rnd (cl + w)) of Inl e \<Rightarrow> Inl e
          | Inr (startTop, endTop) \<Rightarrow>
             (case lookBelow_rounded rnd eps pb i len ls cl (rnd (cl + w)) of Inl e \<Rightarrow> Inl e
              | Inr (startBottom, endBottom) \<Rightarrow>
                 Inr (\<lparr>top_style = startTop, bottom_style = startBottom\<rparr>,
                      \<lparr>top_style = endTop, bottom_style = endBottom\<rparr>))))"
  by (simp add: computeStyle_rounded_def firstGeom_def Let_def split: sum.splits)

lemma lookAbove_rounded_cong:
  assumes "map geom xs = map geom ys"
  shows "lookAbove_rounded rnd eps pt i xs cl cr = lookAbove_rounded rnd eps pt i ys cl cr"
  by (simp add: lookAbove_rounded_firstGeom firstGeom_cong [OF assms])

lemma lookBelow_rounded_cong:
  assumes "map geom xs = map geom ys"
  shows "lookBelow_rounded rnd eps pb i len xs cl cr = lookBelow_rounded rnd eps pb i len ys cl cr"
  by (simp add: lookBelow_rounded_firstGeom firstGeom_cong [OF assms])

lemma computeStyle_rounded_cong:
  assumes "map geom xs = map geom ys"
  shows "computeStyle_rounded rnd eps pt pb i len xs = computeStyle_rounded rnd eps pt pb i len ys"
  unfolding computeStyle_rounded_firstGeom firstGeom_cong [OF assms]
    lookAbove_rounded_cong [OF assms] lookBelow_rounded_cong [OF assms] by (rule refl)

lemma enrichLoop_rounded_char:
  "enrichLoop_rounded rnd eps pt pb i len cur = Inr out \<Longrightarrow> map geom cur = map geom ls \<Longrightarrow>
   len = length ls \<Longrightarrow>
   length out = length ls \<and> (\<forall>j<i. out ! j = cur ! j) \<and>
   (\<forall>j. i \<le> j \<and> j < len \<longrightarrow>
      (\<exists>s e. computeStyle_rounded rnd eps pt pb j len ls = Inr (s, e)
             \<and> out ! j = assignStyle (cur ! j) s e))"
proof (induction rnd eps pt pb i len cur rule: enrichLoop_rounded.induct)
  case (1 rnd eps pt pb i len cur)
  have lencur: "length cur = length ls" using "1.prems"(2) by (metis length_map)
  show ?case
  proof (cases "i < len")
    case False
    with "1.prems" have "out = cur" by (simp add: enrichLoop_rounded.simps)
    with False lencur show ?thesis by auto
  next
    case True
    from "1.prems"(1) True obtain s e where
      cs: "computeStyle_rounded rnd eps pt pb i len cur = Inr (s, e)" and
      rec: "enrichLoop_rounded rnd eps pt pb (i + 1) len (cur[i := assignStyle (cur ! i) s e])
            = Inr out"
      by (subst (asm) enrichLoop_rounded.simps) (auto split: sum.splits)
    let ?cur' = "cur[i := assignStyle (cur ! i) s e]"
    have g': "map geom ?cur' = map geom ls" using "1.prems"(2) by (rule geom_update)
    have csl: "computeStyle_rounded rnd eps pt pb i len ls = Inr (s, e)"
      using cs computeStyle_rounded_cong [OF "1.prems"(2)] by simp
    from "1.IH" [OF True cs refl rec g' "1.prems"(3)]
    have ih1: "length out = length ls"
      and ih2: "\<forall>j<i + 1. out ! j = ?cur' ! j"
      and ih3: "\<forall>j. i + 1 \<le> j \<and> j < len \<longrightarrow>
         (\<exists>s e. computeStyle_rounded rnd eps pt pb j len ls = Inr (s, e) \<and>
                out ! j = assignStyle (?cur' ! j) s e)"
      by blast+
    have a: "\<forall>j<i. out ! j = cur ! j" using ih2 by simp
    have outi: "out ! i = assignStyle (cur ! i) s e"
      using ih2 True lencur "1.prems"(3) by simp
    have b: "\<forall>j. i \<le> j \<and> j < len \<longrightarrow>
      (\<exists>s e. computeStyle_rounded rnd eps pt pb j len ls = Inr (s, e)
             \<and> out ! j = assignStyle (cur ! j) s e)"
    proof (intro allI impI)
      fix j assume j: "i \<le> j \<and> j < len"
      show "\<exists>s e. computeStyle_rounded rnd eps pt pb j len ls = Inr (s, e) \<and>
                  out ! j = assignStyle (cur ! j) s e"
      proof (cases "j = i")
        case True
        with csl outi show ?thesis by blast
      next
        case False
        with j have "i + 1 \<le> j \<and> j < len" by simp
        with ih3 obtain s' e' where "computeStyle_rounded rnd eps pt pb j len ls = Inr (s', e')"
          "out ! j = assignStyle (?cur' ! j) s' e'" by blast
        with False show ?thesis by auto
      qed
    qed
    from ih1 a b show ?thesis by blast
  qed
qed

lemma enrich_rounded_nth:
  assumes "enrichVisibleRangesWithStyle_rounded rnd this vp ls pf = Inr out" and "j < length ls"
  shows "\<exists>s e. computeStyle_rounded rnd (rnd (typicalHalfwidthCharacterWidth this / 4))
                 (previousFrameTop vp ls pf) (previousFrameBottom vp ls pf) j (length ls) ls
               = Inr (s, e) \<and> out ! j = assignStyle (ls ! j) s e"
  using enrichLoop_rounded_char [of _ _ _ _ 0 "length ls" ls out ls] assms
  by (simp add: enrichVisibleRangesWithStyle_rounded_def)

lemma computeStyle_rounded_InrD:
  assumes "computeStyle_rounded rnd eps pt pb j len ls = Inr (s, e)"
  shows "\<exists>cur st et sb eb. firstRange ls j = Inr cur \<and>
           lookAbove_rounded rnd eps pt j ls (left cur) (rnd (left cur + width cur)) = Inr (st, et) \<and>
           lookBelow_rounded rnd eps pb j len ls (left cur) (rnd (left cur + width cur))
             = Inr (sb, eb) \<and>
           s = \<lparr>top_style = st, bottom_style = sb\<rparr> \<and> e = \<lparr>top_style = et, bottom_style = eb\<rparr>"
  using assms by (auto simp: computeStyle_rounded_def Let_def split: sum.splits prod.splits)

lemma enrich_rounded_corners:
  assumes ok: "enrichVisibleRangesWithStyle_rounded rnd this vp ls pf = Inr out"
    and cur: "firstRange ls j = Inr cur"
  shows "lookAbove_rounded rnd (rnd (typicalHalfwidthCharacterWidth this / 4))
           (previousFrameTop vp ls pf) j ls (left cur) (rnd (left cur + width cur))
         = Inr (st, et) \<Longrightarrow> startStyleTop (out ! j) = Some st \<and> endStyleTop (out ! j) = Some et"
    and "lookBelow_rounded rnd (rnd (typicalHalfwidthCharacterWidth this / 4))
           (previousFrameBottom vp ls pf) j (length ls) ls (left cur) (rnd (left cur + width cur))
         = Inr (sb, eb) \<Longrightarrow>
         startStyleBottom (out ! j) = Some sb \<and> endStyleBottom (out ! j) = Some eb"
proof -
  let ?eps = "rnd (typicalHalfwidthCharacterWidth this / 4)"
  from firstRange_InrD [OF cur] obtain rest where j: "j < length ls"
    and r: "ranges (ls ! j) = cur # rest" by blast
  from enrich_rounded_nth [OF ok j] obtain s e where
    cs: "computeStyle_rounded rnd ?eps
           (previousFrameTop vp ls pf) (previousFrameBottom vp ls pf) j (length ls) ls = Inr (s, e)"
    and o: "out ! j = assignStyle (ls ! j) s e" by blast
  from computeStyle_rounded_InrD [OF cs] cur obtain st' et' sb' eb' where
    a: "lookAbove_rounded rnd ?eps (previousFrameTop vp ls pf) j ls
           (left cur) (rnd (left cur + width cur)) = Inr (st', et')" and
    b: "lookBelow_rounded rnd ?eps (previousFrameBottom vp ls pf) j
           (length ls) ls (left cur) (rnd (left cur + width cur)) = Inr (sb', eb')" and
    s: "s = \<lparr>top_style = st', bottom_style = sb'\<rparr>" and
    e: "e = \<lparr>top_style = et', bottom_style = eb'\<rparr>" by auto
  show "lookAbove_rounded rnd ?eps
           (previousFrameTop vp ls pf) j ls (left cur) (rnd (left cur + width cur))
         = Inr (st, et) \<Longrightarrow> startStyleTop (out ! j) = Some st \<and> endStyleTop (out ! j) = Some et"
    using a o s e corners_assignStyle [OF r] by simp
  show "lookBelow_rounded rnd ?eps
           (previousFrameBottom vp ls pf) j (length ls) ls (left cur) (rnd (left cur + width cur))
         = Inr (sb, eb) \<Longrightarrow>
         startStyleBottom (out ! j) = Some sb \<and> endStyleBottom (out ! j) = Some eb"
    using b o s e corners_assignStyle [OF r] by simp
qed

lemma lookBelow_rounded_next:
  assumes "i + 1 < len" and "firstRange ls (i + 1) = Inr next"
  shows "lookBelow_rounded rnd eps pb i len ls cl cr =
     Inr (if \<bar>rnd (cl - left next)\<bar> < eps then FLAT
          else if left next < cl \<and> cl < rnd (left next + width next) then INTERN else EXTERN,
          if \<bar>rnd (cr - rnd (left next + width next))\<bar> < eps then FLAT
          else if cr < rnd (left next + width next) then INTERN else EXTERN)"
  using assms by (simp add: lookBelow_rounded_def Let_def abs_num_abs)

lemma lookAbove_rounded_prev:
  assumes "0 < i" and "firstRange ls (i - 1) = Inr prev"
  shows "lookAbove_rounded rnd eps pt i ls cl cr =
     Inr (if \<bar>rnd (cl - left prev)\<bar> < eps then FLAT
          else if cl > left prev then INTERN else EXTERN,
          if \<bar>rnd (cr - rnd (left prev + width prev))\<bar> < eps then FLAT
          else if left prev < cr \<and> cr < rnd (left prev + width prev) then INTERN else EXTERN)"
  using assms by (simp add: lookAbove_rounded_def Let_def abs_num_abs)

text \<open>With the identity as rounding, the definitions are the exact ones.\<close>

lemma lookAbove_rounded_exact: "lookAbove_rounded (\<lambda>x. x) = lookAbove"
  by (intro ext) (simp add: lookAbove_rounded_def lookAbove_def)

lemma lookBelow_rounded_exact: "lookBelow_rounded (\<lambda>x. x) = lookBelow"
  by (intro ext) (simp add: lookBelow_rounded_def lookBelow_def)

lemma computeStyle_rounded_exact: "computeStyle_rounded (\<lambda>x. x) = computeStyle"
  unfolding computeStyle_rounded_def [abs_def] computeStyle_def [abs_def]
    lookAbove_rounded_exact lookBelow_rounded_exact by (rule refl)

lemma enrichLoop_rounded_exact:
  "enrichLoop_rounded (\<lambda>x. x) eps pt pb i len ls = enrichLoop eps pt pb i len ls"
proof (induction eps pt pb i len ls rule: enrichLoop.induct)
  case (1 eps pt pb i len ls)
  show ?case
  proof (cases "i < len")
    case False
    then show ?thesis by (simp add: enrichLoop.simps enrichLoop_rounded.simps)
  next
    case True
    show ?thesis
    proof (cases "computeStyle eps pt pb i len ls")
      case (Inl e)
      with True show ?thesis
        by (subst enrichLoop.simps, subst enrichLoop_rounded.simps)
           (simp add: computeStyle_rounded_exact)
    next
      case (Inr se)
      obtain s e where se: "se = (s, e)" by (cases se)
      from "1.IH" [OF True Inr [unfolded se] refl] True Inr se show ?thesis
        by (subst enrichLoop.simps, subst enrichLoop_rounded.simps)
           (simp add: computeStyle_rounded_exact)
    qed
  qed
qed

lemma enrich_rounded_exact:
  "enrichVisibleRangesWithStyle_rounded (\<lambda>x. x) = enrichVisibleRangesWithStyle"
  by (intro ext)
     (simp add: enrichVisibleRangesWithStyle_rounded_def enrichVisibleRangesWithStyle_def
        enrichLoop_rounded_exact)

lemma round64_odd: "\<forall>x. round64 (- x) = - round64 x"
  by (simp add: round64_uminus)

text \<open>Values of the rounding: the doubles of some decimal literals, a tie that goes to
  the even significand, and the two roundings that the inputs of the statements below
  meet.\<close>

lemma round64_values:
  "round64 (1 / 10) = 3602879701896397 / 36028797018963968"
  "round64 (2 / 5) = double_0_4" "round64 (8 / 5) = double_1_6"
  "round64 (12 / 5) = double_2_4" "round64 (18 / 5) = double_3_6"
  "round64 double_0_4 = double_0_4" "round64 double_2_4 = double_2_4"
  "round64 (2 - 1 / 2 ^ 53) = 2"
  "round64 (2 ^ 53 + 1) = 2 ^ 53"
  "round64 (double_2_4 - double_0_4) = 2"
  "round64 (double_3_6 + 2) = 3152519739159347 / 562949953421312"
  by code_simp+

text \<open>The three-line scenario is classified in doubles as it is with exact arithmetic.\<close>

lemma scenario_in_doubles:
  "enrichVisibleRangesWithStyle_rounded round64 exThis wideViewport exLines None
     = Inr [classified 5 10 50 EXTERN INTERN EXTERN INTERN,
            classified 6 0 80 EXTERN FLAT EXTERN EXTERN,
            classified 7 0 30 FLAT EXTERN INTERN EXTERN]"
  by code_simp

text \<open>The rule for \<^verbatim>\<open>startStyle.top\<close> in the arithmetic of doubles, for offsets whose
  exact difference is at least epsilon: it needs a rounding that is monotone and odd and
  that leaves epsilon, a rounded value, as it is.\<close>

lemma startStyle_top_rounded_monotone:
  assumes ok: "enrichVisibleRangesWithStyle_rounded rnd this viewport ls previousFrame = Inr out"
    and i: "0 < i"
    and prev: "firstRange ls (i - 1) = Inr prev" and cur: "firstRange ls i = Inr cur"
    and mono: "\<forall>x y. x \<le> y \<longrightarrow> rnd x \<le> rnd y"
    and idem: "rnd (rnd (typicalHalfwidthCharacterWidth this / 4))
               = rnd (typicalHalfwidthCharacterWidth this / 4)"
    and odd: "\<forall>x. rnd (- x) = - rnd x"
  shows "(left cur > left prev
            \<and> left cur - left prev \<ge> rnd (typicalHalfwidthCharacterWidth this / 4)
            \<longrightarrow> startStyleTop (out ! i) = Some INTERN)
       \<and> (left cur < left prev
            \<and> left prev - left cur \<ge> rnd (typicalHalfwidthCharacterWidth this / 4)
            \<longrightarrow> startStyleTop (out ! i) = Some EXTERN)"
proof -
  let ?eps = "rnd (typicalHalfwidthCharacterWidth this / 4)"
  have top: "startStyleTop (out ! i) =
        Some (if \<bar>rnd (left cur - left prev)\<bar> < ?eps then FLAT
              else if left cur > left prev then INTERN else EXTERN)"
    using enrich_rounded_corners(1) [OF ok cur lookAbove_rounded_prev [OF i prev]]
    by simp
  have ge: "?eps \<le> rnd d" if "?eps \<le> d" for d
    using mono that idem by metis
  have a: "\<not> \<bar>rnd (left cur - left prev)\<bar> < ?eps" if "left cur - left prev \<ge> ?eps"
    using ge [OF that] by linarith
  have b: "\<not> \<bar>rnd (left cur - left prev)\<bar> < ?eps" if "left prev - left cur \<ge> ?eps"
  proof -
    have "rnd (left cur - left prev) = - rnd (left prev - left cur)"
      using odd by (metis minus_diff_eq)
    with ge [OF that] show ?thesis by linarith
  qed
  from top a b show ?thesis by auto
qed

section \<open>Gap suppression\<close>

text \<open>
  Claim C1, as amended. When some visible line of a selection has two or more ranges,
  \<^verbatim>\<open>_getVisibleRangesWithStyle\<close> does not classify: it returns the lines as the
  constructor made them, and every range keeps \<^verbatim>\<open>startStyle = null\<close> and
  \<^verbatim>\<open>endStyle = null\<close>. The styles are not set to EXTERN/EXTERN.
\<close>

theorem C1_gap_suppression_leaves_styles_null:
  assumes "linesVisibleRangesForRange ctx selection True = Some raw"
    and "\<exists>l\<in>set raw. length (raw_ranges l) \<ge> 2"
  shows "getVisibleRangesWithStyle this selection ctx previousFrame = Inr (map toStyled raw)
       \<and> (\<forall>l\<in>set (map toStyled raw). \<forall>r\<in>set (ranges l).
             startStyle r = None \<and> endStyle r = None)"
proof -
  from assms(2) obtain l where "l \<in> set raw" "length (raw_ranges l) \<ge> 2" by blast
  then have "toStyled l \<in> set (map toStyled raw)" "length (ranges (toStyled l)) > 1"
    by (simp_all add: toStyled_def)
  then have "visibleRangesHaveGaps (map toStyled raw)" unfolding gaps_iff by blast
  then have "getVisibleRangesWithStyle this selection ctx previousFrame = Inr (map toStyled raw)"
    using assms(1) by (simp add: getVisibleRangesWithStyle_def)
  moreover have "\<forall>l\<in>set (map toStyled raw). \<forall>r\<in>set (ranges l).
      startStyle r = None \<and> endStyle r = None"
    using toStyled_unstyled by auto
  ultimately show ?thesis by blast
qed

theorem C1_witness:
  "linesVisibleRangesForRange gapCtx exSelection True = Some [gapLine]
   \<and> length (raw_ranges gapLine) \<ge> 2
   \<and> getVisibleRangesWithStyle exThis exSelection gapCtx None = Inr (map toStyled [gapLine])
   \<and> map startStyle (ranges (toStyled gapLine)) = [None, None]
   \<and> map endStyle (ranges (toStyled gapLine)) = [None, None]"
proof -
  have q: "linesVisibleRangesForRange gapCtx exSelection True = Some [gapLine]"
    by (simp add: gapCtx_def answering_def)
  have g: "\<exists>l\<in>set [gapLine]. length (raw_ranges l) \<ge> 2" by (simp add: gapLine_def)
  from C1_gap_suppression_leaves_styles_null [OF q g, of exThis None] q show ?thesis
    by (simp add: gapLine_def toStyled_def toStyledRange_def)
qed

text \<open>The claim as it was stated fails on a line with two ranges: the result holds null
  styles, and the top corner of the start style is not EXTERN.\<close>

theorem C1_counterexample:
  "length (raw_ranges gapLine) = 2
   \<and> getVisibleRangesWithStyle exThis exSelection gapCtx None = Inr [toStyled gapLine]
   \<and> map startStyle (ranges (toStyled gapLine)) = [None, None]
   \<and> map endStyle (ranges (toStyled gapLine)) = [None, None]
   \<and> startStyleTop (toStyled gapLine) \<noteq> Some EXTERN"
  by (simp add: getVisibleRangesWithStyle_def exThis_def gapCtx_def answering_def gapLine_def
      toStyled_def toStyledRange_def startStyleTop_def)

section \<open>Borrowing at the viewport boundary\<close>

text \<open>
  Claim C2. For a classified selection with at least one line: the top corners of the first
  line come from the previous frame if and only if the line's number is
  \<^verbatim>\<open>viewport.startLineNumber\<close> (the entry is the first match of an ascending search,
  and a missing entry or one with a null start style gives EXTERN), and are EXTERN
  otherwise; the bottom corners of the last line come from the previous frame if and only
  if its number is \<^verbatim>\<open>viewport.endLineNumber\<close> (first match of the descending search),
  and are EXTERN otherwise; and what is stored for an interior line is the same for every
  viewport and every previous frame.
\<close>

theorem C2_boundary_borrow_gating:
  assumes ok: "enrichVisibleRangesWithStyle this viewport ls previousFrame = Inr out"
    and ne: "ls \<noteq> []"
  shows "(startStyleTop (out ! 0), endStyleTop (out ! 0)) =
           (if lineNumber (ls ! 0) = startLineNumber viewport
            then cacheCorners top_style (firstMatch (lineNumber (ls ! 0)) (frameLines previousFrame))
            else (Some EXTERN, Some EXTERN))
       \<and> (startStyleBottom (out ! (length ls - 1)), endStyleBottom (out ! (length ls - 1))) =
           (if lineNumber (ls ! (length ls - 1)) = endLineNumber viewport
            then cacheCorners bottom_style
                   (firstMatch (lineNumber (ls ! (length ls - 1))) (rev (frameLines previousFrame)))
            else (Some EXTERN, Some EXTERN))
       \<and> (\<forall>i viewport' previousFrame' out'.
             0 < i \<and> i + 1 < length ls
             \<and> enrichVisibleRangesWithStyle this viewport' ls previousFrame' = Inr out'
             \<longrightarrow> out' ! i = out ! i)"
proof (intro conjI allI impI)
  let ?eps = "typicalHalfwidthCharacterWidth this / 4"
  from ne have z: "0 < length ls" by simp
  from enrich_firstRange [OF ok z] obtain cur where cur: "firstRange ls 0 = Inr cur" by blast
  from enrich_corners(3) [OF ok cur] obtain st et where
    la: "lookAbove ?eps (previousFrameTop viewport ls previousFrame) 0 ls
           (left cur) (left cur + width cur) = Inr (st, et)" by blast
  from enrich_corners(1) [OF ok cur la]
  have acc: "startStyleTop (out ! 0) = Some st" "endStyleTop (out ! 0) = Some et" by simp_all
  from la have "(case dropUnstyled (if lineNumber (ls ! 0) = startLineNumber viewport
                   then firstMatch (lineNumber (ls ! 0)) (frameLines previousFrame) else None)
           of None \<Rightarrow> Inr (EXTERN, EXTERN) | Some p \<Rightarrow> borrowed top_style p) = Inr (st, et)"
    by (simp add: lookAbove_def previousFrameTop_frameLines [OF ne])
  from borrowed_cacheCorners [OF this] acc
  show "(startStyleTop (out ! 0), endStyleTop (out ! 0)) =
           (if lineNumber (ls ! 0) = startLineNumber viewport
            then cacheCorners top_style (firstMatch (lineNumber (ls ! 0)) (frameLines previousFrame))
            else (Some EXTERN, Some EXTERN))"
    by (simp add: cacheCorners_def split: if_splits)
next
  let ?eps = "typicalHalfwidthCharacterWidth this / 4"
  let ?k = "length ls - 1"
  from ne have k: "?k < length ls" by simp
  from enrich_firstRange [OF ok k] obtain cur where cur: "firstRange ls ?k = Inr cur" by blast
  from enrich_corners(4) [OF ok cur] obtain sb eb where
    lb: "lookBelow ?eps (previousFrameBottom viewport ls previousFrame) ?k (length ls) ls
           (left cur) (left cur + width cur) = Inr (sb, eb)" by blast
  from enrich_corners(2) [OF ok cur lb]
  have acc: "startStyleBottom (out ! ?k) = Some sb" "endStyleBottom (out ! ?k) = Some eb"
    by simp_all
  from lb ne have "(case dropUnstyled (if lineNumber (ls ! ?k) = endLineNumber viewport
                   then firstMatch (lineNumber (ls ! ?k)) (rev (frameLines previousFrame)) else None)
           of None \<Rightarrow> Inr (EXTERN, EXTERN) | Some p \<Rightarrow> borrowed bottom_style p) = Inr (sb, eb)"
    by (simp add: lookBelow_def previousFrameBottom_frameLines [OF ne])
  from borrowed_cacheCorners [OF this] acc
  show "(startStyleBottom (out ! ?k), endStyleBottom (out ! ?k)) =
           (if lineNumber (ls ! ?k) = endLineNumber viewport
            then cacheCorners bottom_style
                   (firstMatch (lineNumber (ls ! ?k)) (rev (frameLines previousFrame)))
            else (Some EXTERN, Some EXTERN))"
    by (simp add: cacheCorners_def split: if_splits)
next
  fix i viewport' previousFrame' out'
  assume a: "0 < i \<and> i + 1 < length ls
             \<and> enrichVisibleRangesWithStyle this viewport' ls previousFrame' = Inr out'"
  then have i: "i < length ls" by simp
  from enrich_nth [OF ok i] obtain s e where
    c: "computeStyle (typicalHalfwidthCharacterWidth this / 4)
          (previousFrameTop viewport ls previousFrame) (previousFrameBottom viewport ls previousFrame)
          i (length ls) ls = Inr (s, e)" and o: "out ! i = assignStyle (ls ! i) s e" by blast
  from a enrich_nth [of this viewport' ls previousFrame' out' i] i obtain s' e' where
    c': "computeStyle (typicalHalfwidthCharacterWidth this / 4)
          (previousFrameTop viewport' ls previousFrame') (previousFrameBottom viewport' ls previousFrame')
          i (length ls) ls = Inr (s', e')" and o': "out' ! i = assignStyle (ls ! i) s' e'" by blast
  from a c c' computeStyle_interior [of i "length ls"] have "s' = s \<and> e' = e"
    by (metis Pair_inject sum.inject(2))
  with o o' show "out' ! i = out ! i" by simp
qed

text \<open>At the three-line scenario in the viewport of the lines 5 to 7: line 5 takes its top
  corners and line 7 its bottom corners from the previous frame; in the wider viewport and
  without a previous frame, line 6 is classified the same.\<close>

theorem C2_witness:
  "enrichVisibleRangesWithStyle exThis exViewport exLines (Some exFrame) = Inr exOut
   \<and> exLines \<noteq> []
   \<and> lineNumber (exLines ! 0) = startLineNumber exViewport
   \<and> lineNumber (exLines ! (length exLines - 1)) = endLineNumber exViewport
   \<and> (startStyleTop (exOut ! 0), endStyleTop (exOut ! 0)) = (Some INTERN, Some FLAT)
   \<and> (startStyleBottom (exOut ! 2), endStyleBottom (exOut ! 2)) = (Some FLAT, Some INTERN)
   \<and> enrichVisibleRangesWithStyle exThis wideViewport exLines None
       = Inr [classified 5 10 50 EXTERN INTERN EXTERN INTERN,
              classified 6 0 80 EXTERN FLAT EXTERN EXTERN,
              classified 7 0 30 FLAT EXTERN INTERN EXTERN]
   \<and> exOut ! 1 = classified 6 0 80 EXTERN FLAT EXTERN EXTERN"
proof -
  have h: "enrichVisibleRangesWithStyle exThis exViewport exLines (Some exFrame) = Inr exOut"
    by (simp add: eval_defs exViewport_def exLines_def exFrame_def exOut_def)
  have h': "enrichVisibleRangesWithStyle exThis wideViewport exLines None
       = Inr [classified 5 10 50 EXTERN INTERN EXTERN INTERN,
              classified 6 0 80 EXTERN FLAT EXTERN EXTERN,
              classified 7 0 30 FLAT EXTERN INTERN EXTERN]"
    by (simp add: eval_defs wideViewport_def exLines_def)
  have ne: "exLines \<noteq> []" by (simp add: exLines_def)
  from C2_boundary_borrow_gating [OF h ne] h h' show ?thesis
    by (simp add: exLines_def exOut_def exViewport_def oneRange_def classified_def
        startStyleTop_def startStyleBottom_def endStyleTop_def endStyleBottom_def)
qed

section \<open>What is emitted\<close>

text \<open>
  Claim C3, as amended. The emitter \<^verbatim>\<open>_actualRenderOneSelection\<close> is a placeholder that
  emits nothing: it leaves the per-line output as it was, whatever the classified lines are.
  \<^verbatim>\<open>prepareRender\<close> registers one fixed rectangle of 100 by 10 at
  (startColumn * 10, startLineNumber * 10) for each non-empty selection that can be
  rendered, in the order of the selections, and no inner-corner or body piece.
\<close>

theorem C3_emitter_is_a_placeholder:
  "actualRenderOneSelection output2 visibleStartLineNumber hasMultipleSelections visibleRanges
     = output2
   \<and> prepareRender isEmpty canRender selections =
       map (\<lambda>s. register (of_int (startColumn s) * 10)
                        (of_int (startLineNumber s) * 10) 100 10 1 0 0 1)
           (filter (\<lambda>s. \<not> isEmpty s \<and> canRender (startLineNumber s)) selections)"
  by (simp add: actualRenderOneSelection_def prepareRender_def prepareRenderLoop_eq)

text \<open>The claim as it was stated fails at the classified scenario: line 5 has INTERN
  corners, and after the emitter ran on empty output the entry of line 5 holds neither an
  inner-corner piece nor a body piece.\<close>

theorem C3_counterexample:
  "startStyleBottom (classified 5 10 50 EXTERN INTERN EXTERN INTERN) = Some INTERN
   \<and> endStyleBottom (classified 5 10 50 EXTERN INTERN EXTERN INTERN) = Some INTERN
   \<and> actualRenderOneSelection [('''', ''''), ('''', ''''), ('''', '''')] 5 False
       [classified 5 10 50 EXTERN INTERN EXTERN INTERN,
        classified 6 0 80 EXTERN FLAT EXTERN EXTERN,
        classified 7 0 30 FLAT EXTERN INTERN EXTERN]
     = [('''', ''''), ('''', ''''), ('''', '''')]"
  by (simp add: actualRenderOneSelection_def classified_def startStyleBottom_def endStyleBottom_def)

section \<open>Failure\<close>

text \<open>
  Claim C4. The claim is that the pipeline never raises, for any number of ranges on a
  line. On a visible line without any range (and no line with two), with rounded
  selections enabled, \<^verbatim>\<open>_visibleRangesHaveGaps\<close> answers false, classification runs,
  \<^verbatim>\<open>linesVisibleRanges[0].ranges[0]\<close> is \<^verbatim>\<open>undefined\<close> and the read of its
  \<^verbatim>\<open>left\<close> raises a TypeError.
\<close>

theorem C4_line_without_range_raises:
  "getVisibleRangesWithStyle exThis exSelection emptyLineCtx None = Inl TypeError"
  by (simp add: getVisibleRangesWithStyle_def exThis_def emptyLineCtx_def answering_def
      emptyLine_def toStyled_def eval_defs)

section \<open>The comparison rules\<close>

text \<open>
  Claim C5, as amended. For a classified line \<open>i\<close> with a line below, in the arithmetic of
  doubles: when the difference of the two right ends as the code computes it (each right
  end the rounded sum \<open>left + width\<close>, the difference rounded, then \<^verbatim>\<open>abs\<close>) is at least
  epsilon, \<^verbatim>\<open>endStyle.bottom\<close> of line \<open>i\<close> is INTERN if and only if
  \<open>curRight < nextRight\<close>, and nothing is required of \<open>curRight\<close> and \<open>nextLeft\<close>. Of the
  other three rules, the ones for \<^verbatim>\<open>startStyle.bottom\<close> and \<^verbatim>\<open>endStyle.top\<close> give INTERN
  only to an offset strictly inside the range of the neighbouring line; the rule for
  \<^verbatim>\<open>startStyle.top\<close> is one-sided too: when the computed difference of the left offsets
  is at least epsilon, it gives INTERN if and only if the left offset is greater than that
  of the line above. The statement holds for every rounding \<open>rnd\<close>.
\<close>

theorem C5_endStyle_bottom_intern:
  assumes "enrichVisibleRangesWithStyle_rounded rnd this viewport ls previousFrame = Inr out"
    and "i + 1 < length ls"
    and "firstRange ls i = Inr cur" and "firstRange ls (i + 1) = Inr next"
  shows "(\<bar>rnd (rnd (left cur + width cur) - rnd (left next + width next))\<bar>
             \<ge> rnd (typicalHalfwidthCharacterWidth this / 4) \<longrightarrow>
           (endStyleBottom (out ! i) = Some INTERN)
             = (rnd (left cur + width cur) < rnd (left next + width next)))
       \<and> (startStyleBottom (out ! i) = Some INTERN \<longrightarrow>
             left next < left cur \<and> left cur < rnd (left next + width next))
       \<and> (endStyleTop (out ! (i + 1)) = Some INTERN \<longrightarrow>
             left cur < rnd (left next + width next)
             \<and> rnd (left next + width next) < rnd (left cur + width cur))
       \<and> (\<bar>rnd (left next - left cur)\<bar> \<ge> rnd (typicalHalfwidthCharacterWidth this / 4) \<longrightarrow>
           (startStyleTop (out ! (i + 1)) = Some INTERN) = (left next > left cur))"
proof -
  let ?eps = "rnd (typicalHalfwidthCharacterWidth this / 4)"
  let ?cr = "rnd (left cur + width cur)"
  let ?nr = "rnd (left next + width next)"
  have prev: "firstRange ls (i + 1 - 1) = Inr cur" using assms(3) by simp
  have below: "startStyleBottom (out ! i) =
        Some (if \<bar>rnd (left cur - left next)\<bar> < ?eps then FLAT
              else if left next < left cur \<and> left cur < ?nr then INTERN else EXTERN)
      \<and> endStyleBottom (out ! i) =
        Some (if \<bar>rnd (?cr - ?nr)\<bar> < ?eps then FLAT
              else if ?cr < ?nr then INTERN else EXTERN)"
    using enrich_rounded_corners(2) [OF assms(1) assms(3)
        lookBelow_rounded_next [OF assms(2) assms(4)]]
    by simp
  have above: "startStyleTop (out ! (i + 1)) =
        Some (if \<bar>rnd (left next - left cur)\<bar> < ?eps then FLAT
              else if left next > left cur then INTERN else EXTERN)
      \<and> endStyleTop (out ! (i + 1)) =
        Some (if \<bar>rnd (?nr - ?cr)\<bar> < ?eps then FLAT
              else if left cur < ?nr \<and> ?nr < ?cr then INTERN else EXTERN)"
    using enrich_rounded_corners(1) [OF assms(1) assms(4) lookAbove_rounded_prev [OF _ prev]]
    by simp
  from below above show ?thesis by (auto split: if_splits)
qed

text \<open>With the rounding of binary64: a line that ends left of where the next line starts has
  \<^verbatim>\<open>endStyle.bottom\<close> INTERN, and the next line has \<^verbatim>\<open>startStyle.top\<close> INTERN; in the
  three-line scenario, \<^verbatim>\<open>startStyle.bottom\<close> of line 5 and \<^verbatim>\<open>endStyle.top\<close> of line 7
  are INTERN, with the offset inside the range of line 6.\<close>

theorem C5_witness:
  "enrichVisibleRangesWithStyle_rounded round64 exThis wideViewport
       [oneRange 1 0 10, oneRange 2 50 10] None
     = Inr [classified 1 0 10 EXTERN EXTERN EXTERN INTERN,
            classified 2 50 10 INTERN EXTERN EXTERN EXTERN]
   \<and> \<bar>round64 (round64 (0 + 10) - round64 (50 + 10))\<bar> \<ge> round64 (8 / 4)
   \<and> round64 (0 + 10) < round64 (50 + 10) \<and> \<not> round64 (0 + 10) > 50
   \<and> endStyleBottom (classified 1 0 10 EXTERN EXTERN EXTERN INTERN) = Some INTERN
   \<and> \<bar>round64 (50 - 0)\<bar> \<ge> round64 (8 / 4) \<and> (50::rat) > 0
   \<and> startStyleTop (classified 2 50 10 INTERN EXTERN EXTERN EXTERN) = Some INTERN
   \<and> enrichVisibleRangesWithStyle_rounded round64 exThis wideViewport exLines None
     = Inr [classified 5 10 50 EXTERN INTERN EXTERN INTERN,
            classified 6 0 80 EXTERN FLAT EXTERN EXTERN,
            classified 7 0 30 FLAT EXTERN INTERN EXTERN]
   \<and> startStyleBottom (classified 5 10 50 EXTERN INTERN EXTERN INTERN) = Some INTERN
   \<and> (0::rat) < 10 \<and> (10::rat) < round64 (0 + 80)
   \<and> endStyleTop (classified 7 0 30 FLAT EXTERN INTERN EXTERN) = Some INTERN
   \<and> (0::rat) < round64 (0 + 30) \<and> round64 (0 + 30) < round64 (0 + 80)"
proof -
  let ?a = "\<lparr>left = 0, width = 10, startStyle = None, endStyle = None\<rparr>"
  let ?b = "\<lparr>left = 50, width = 10, startStyle = None, endStyle = None\<rparr>"
  let ?ls = "[oneRange 1 0 10, oneRange 2 50 10]"
  let ?out = "[classified 1 0 10 EXTERN EXTERN EXTERN INTERN,
               classified 2 50 10 INTERN EXTERN EXTERN EXTERN]"
  let ?out' = "[classified 5 10 50 EXTERN INTERN EXTERN INTERN,
            classified 6 0 80 EXTERN FLAT EXTERN EXTERN,
            classified 7 0 30 FLAT EXTERN INTERN EXTERN]"
  have h: "enrichVisibleRangesWithStyle_rounded round64 exThis wideViewport ?ls None = Inr ?out"
    by code_simp
  have h': "enrichVisibleRangesWithStyle_rounded round64 exThis wideViewport exLines None
            = Inr ?out'"
    by code_simp
  have c: "firstRange ?ls 0 = Inr ?a" and n: "firstRange ?ls (0 + 1) = Inr ?b"
    and l5: "firstRange exLines 0
           = Inr \<lparr>left = 10, width = 50, startStyle = None, endStyle = None\<rparr>"
    and l6: "firstRange exLines (0 + 1)
           = Inr \<lparr>left = 0, width = 80, startStyle = None, endStyle = None\<rparr>"
    and l6': "firstRange exLines 1
           = Inr \<lparr>left = 0, width = 80, startStyle = None, endStyle = None\<rparr>"
    and l7: "firstRange exLines (1 + 1)
           = Inr \<lparr>left = 0, width = 30, startStyle = None, endStyle = None\<rparr>"
    by (simp_all add: firstRange_def oneRange_def exLines_def)
  have i: "0 + 1 < length ?ls" and i5: "0 + 1 < length exLines" and i6: "1 + 1 < length exLines"
    by (simp_all add: exLines_def)
  have v1: "\<bar>round64 (round64 (left ?a + width ?a) - round64 (left ?b + width ?b))\<bar>
             \<ge> round64 (typicalHalfwidthCharacterWidth exThis / 4)"
    and v2: "\<bar>round64 (left ?b - left ?a)\<bar> \<ge> round64 (typicalHalfwidthCharacterWidth exThis / 4)"
    by code_simp+
  have vals: "\<bar>round64 (round64 (0 + 10) - round64 (50 + 10))\<bar> \<ge> round64 (8 / 4)
     \<and> round64 (0 + 10) < round64 (50 + 10) \<and> \<not> round64 (0 + 10) > 50
     \<and> \<bar>round64 (50 - 0)\<bar> \<ge> round64 (8 / 4)
     \<and> (10::rat) < round64 (0 + 80)
     \<and> (0::rat) < round64 (0 + 30) \<and> round64 (0 + 30) < round64 (0 + 80)"
    by code_simp
  note t = C5_endStyle_bottom_intern [OF h i c n]
  note t5 = C5_endStyle_bottom_intern [OF h' i5 l5 l6]
  note t6 = C5_endStyle_bottom_intern [OF h' i6 l6' l7]
  from t [THEN conjunct1, THEN mp, OF v1]
  have r1: "(endStyleBottom (?out ! 0) = Some INTERN)
            = (round64 (left ?a + width ?a) < round64 (left ?b + width ?b))" .
  from t [THEN conjunct2, THEN conjunct2, THEN conjunct2, THEN mp, OF v2]
  have r2: "(startStyleTop (?out ! (0 + 1)) = Some INTERN) = (left ?b > left ?a)" .
  have s5: "startStyleBottom (?out' ! 0) = Some INTERN"
    by (simp add: classified_def startStyleBottom_def)
  have s7: "endStyleTop (?out' ! (1 + 1)) = Some INTERN"
    by (simp add: classified_def endStyleTop_def)
  from t5 [THEN conjunct2, THEN conjunct1, THEN mp, OF s5]
  have r3: "left \<lparr>left = 0, width = 80, startStyle = None, endStyle = None\<rparr>
              < left \<lparr>left = 10, width = 50, startStyle = None, endStyle = None\<rparr>
          \<and> left \<lparr>left = 10, width = 50, startStyle = None, endStyle = None\<rparr>
              < round64 (left \<lparr>left = 0, width = 80, startStyle = None, endStyle = None\<rparr>
                         + width \<lparr>left = 0, width = 80, startStyle = None, endStyle = None\<rparr>)" .
  from t6 [THEN conjunct2, THEN conjunct2, THEN conjunct1, THEN mp, OF s7]
  have r4: "left \<lparr>left = 0, width = 80, startStyle = None, endStyle = None\<rparr>
              < round64 (left \<lparr>left = 0, width = 30, startStyle = None, endStyle = None\<rparr>
                         + width \<lparr>left = 0, width = 30, startStyle = None, endStyle = None\<rparr>)
          \<and> round64 (left \<lparr>left = 0, width = 30, startStyle = None, endStyle = None\<rparr>
                         + width \<lparr>left = 0, width = 30, startStyle = None, endStyle = None\<rparr>)
              < round64 (left \<lparr>left = 0, width = 80, startStyle = None, endStyle = None\<rparr>
                         + width \<lparr>left = 0, width = 80, startStyle = None, endStyle = None\<rparr>)" .
  from r1 r2 r3 r4 h h' vals show ?thesis
    by (simp add: classified_def startStyleTop_def startStyleBottom_def endStyleTop_def
        endStyleBottom_def)
qed

text \<open>The claim as it was stated fails twice. It says that the other three rules bound the
  offset from both sides: the second line of the first input, which starts right of where
  the first ends, has \<^verbatim>\<open>startStyle.top\<close> INTERN, its left offset 50 not inside the range
  from 0 to 10 of the line above. And it speaks of the difference of the right ends: for
  the doubles 1.6 and 3.6 and the width 2, the right ends \<open>left + width\<close> differ by
  exactly 2, which is epsilon, and the first is the smaller; but the sum 3.6 + 2 rounds
  down, the computed difference is below 2, and \<^verbatim>\<open>endStyle.bottom\<close> of the first line is
  FLAT, not INTERN.\<close>

theorem C5_counterexample:
  "enrichVisibleRangesWithStyle_rounded round64 exThis wideViewport
       [oneRange 1 0 10, oneRange 2 50 10] None
     = Inr [classified 1 0 10 EXTERN EXTERN EXTERN INTERN,
            classified 2 50 10 INTERN EXTERN EXTERN EXTERN]
   \<and> startStyleTop (classified 2 50 10 INTERN EXTERN EXTERN EXTERN) = Some INTERN
   \<and> \<not> (50::rat) < round64 (0 + 10)
   \<and> round64 (8 / 5) = double_1_6 \<and> round64 (18 / 5) = double_3_6
   \<and> \<bar>(double_1_6 + 2) - (double_3_6 + 2)\<bar> \<ge> 8 / 4
   \<and> double_1_6 + 2 < double_3_6 + 2
   \<and> enrichVisibleRangesWithStyle_rounded round64 exThis wideViewport
       [oneRange 1 double_1_6 2, oneRange 2 double_3_6 2] None
     = Inr [classified 1 double_1_6 2 EXTERN EXTERN EXTERN FLAT,
            classified 2 double_3_6 2 INTERN EXTERN FLAT EXTERN]
   \<and> endStyleBottom (classified 1 double_1_6 2 EXTERN EXTERN EXTERN FLAT) = Some FLAT"
  by code_simp

text \<open>
  Claim C6. With epsilon 2, the lines 5 \<open>{left: 10, width: 50}\<close>, 6 \<open>{left: 0, width: 80}\<close>
  and 7 \<open>{left: 0, width: 30}\<close> and no previous frame, classification gives line 5 the
  start style EXTERN/INTERN and the end style EXTERN/INTERN (top/bottom), and gives line 7
  \<^verbatim>\<open>startStyle.top\<close> FLAT and \<^verbatim>\<open>endStyle.top\<close> INTERN, in every viewport.
\<close>

theorem C6_scenario:
  "enrichVisibleRangesWithStyle exThis viewport
     [oneRange 5 10 50, oneRange 6 0 80, oneRange 7 0 30] None
   = Inr [classified 5 10 50 EXTERN INTERN EXTERN INTERN,
          classified 6 0 80 EXTERN FLAT EXTERN EXTERN,
          classified 7 0 30 FLAT EXTERN INTERN EXTERN]"
  by (simp add: eval_defs)

text \<open>
  Claim C7, as amended. For adjacent classified lines \<open>i\<close> and \<open>i + 1\<close>, in the arithmetic
  of doubles: when the difference of the left offsets as the code computes it (the rounded
  difference, then \<^verbatim>\<open>abs\<close>) is less than epsilon, \<^verbatim>\<open>startStyle.bottom\<close> of line \<open>i\<close> and
  \<^verbatim>\<open>startStyle.top\<close> of line \<open>i + 1\<close> are FLAT; when the computed difference of the right
  offsets (each the rounded sum \<open>left + width\<close>) is less than epsilon,
  \<^verbatim>\<open>endStyle.bottom\<close> of line \<open>i\<close> and \<^verbatim>\<open>endStyle.top\<close> of line \<open>i + 1\<close> are FLAT. The
  statement holds for every rounding that is odd, as the rounding to the nearest double is
  (\<open>round64_uminus\<close>).
\<close>

theorem C7_flat_adjacency:
  assumes "enrichVisibleRangesWithStyle_rounded rnd this viewport ls previousFrame = Inr out"
    and "i + 1 < length ls"
    and "firstRange ls i = Inr a" and "firstRange ls (i + 1) = Inr b"
    and odd: "\<forall>x. rnd (- x) = - rnd x"
  shows "(\<bar>rnd (left a - left b)\<bar> < rnd (typicalHalfwidthCharacterWidth this / 4) \<longrightarrow>
            startStyleBottom (out ! i) = Some FLAT \<and> startStyleTop (out ! (i + 1)) = Some FLAT)
       \<and> (\<bar>rnd (rnd (left a + width a) - rnd (left b + width b))\<bar>
             < rnd (typicalHalfwidthCharacterWidth this / 4) \<longrightarrow>
            endStyleBottom (out ! i) = Some FLAT \<and> endStyleTop (out ! (i + 1)) = Some FLAT)"
proof -
  let ?eps = "rnd (typicalHalfwidthCharacterWidth this / 4)"
  let ?ar = "rnd (left a + width a)"
  let ?br = "rnd (left b + width b)"
  have prev: "firstRange ls (i + 1 - 1) = Inr a" using assms(3) by simp
  have below: "startStyleBottom (out ! i) =
        Some (if \<bar>rnd (left a - left b)\<bar> < ?eps then FLAT
              else if left b < left a \<and> left a < ?br then INTERN else EXTERN)
      \<and> endStyleBottom (out ! i) =
        Some (if \<bar>rnd (?ar - ?br)\<bar> < ?eps then FLAT
              else if ?ar < ?br then INTERN else EXTERN)"
    using enrich_rounded_corners(2) [OF assms(1) assms(3)
        lookBelow_rounded_next [OF assms(2) assms(4)]]
    by simp
  have above: "startStyleTop (out ! (i + 1)) =
        Some (if \<bar>rnd (left b - left a)\<bar> < ?eps then FLAT
              else if left b > left a then INTERN else EXTERN)
      \<and> endStyleTop (out ! (i + 1)) =
        Some (if \<bar>rnd (?br - ?ar)\<bar> < ?eps then FLAT
              else if left a < ?br \<and> ?br < ?ar then INTERN else EXTERN)"
    using enrich_rounded_corners(1) [OF assms(1) assms(4) lookAbove_rounded_prev [OF _ prev]]
    by simp
  have sym: "\<bar>rnd (y - x)\<bar> = \<bar>rnd (x - y)\<bar>" for x y
  proof -
    have "rnd (y - x) = rnd (- (x - y))" by simp
    also have "\<dots> = - rnd (x - y)" using odd by blast
    finally show ?thesis by simp
  qed
  from below above show ?thesis unfolding sym [of "left a" "left b"] sym [of ?ar ?br] by simp
qed

text \<open>With the rounding of binary64, at the doubles 0.4 and 1.6 and the width 10.\<close>

theorem C7_witness:
  "enrichVisibleRangesWithStyle_rounded round64 exThis wideViewport
       [oneRange 1 double_0_4 10, oneRange 2 double_1_6 10] None
     = Inr [classified 1 double_0_4 10 EXTERN FLAT EXTERN FLAT,
            classified 2 double_1_6 10 FLAT EXTERN FLAT EXTERN]
   \<and> \<bar>round64 (double_0_4 - double_1_6)\<bar> < round64 (8 / 4)
   \<and> \<bar>round64 (round64 (double_0_4 + 10) - round64 (double_1_6 + 10))\<bar> < round64 (8 / 4)
   \<and> startStyleBottom (classified 1 double_0_4 10 EXTERN FLAT EXTERN FLAT) = Some FLAT
   \<and> startStyleTop (classified 2 double_1_6 10 FLAT EXTERN FLAT EXTERN) = Some FLAT
   \<and> endStyleBottom (classified 1 double_0_4 10 EXTERN FLAT EXTERN FLAT) = Some FLAT
   \<and> endStyleTop (classified 2 double_1_6 10 FLAT EXTERN FLAT EXTERN) = Some FLAT"
proof -
  let ?a = "\<lparr>left = double_0_4, width = 10, startStyle = None, endStyle = None\<rparr>"
  let ?b = "\<lparr>left = double_1_6, width = 10, startStyle = None, endStyle = None\<rparr>"
  let ?ls = "[oneRange 1 double_0_4 10, oneRange 2 double_1_6 10]"
  let ?out = "[classified 1 double_0_4 10 EXTERN FLAT EXTERN FLAT,
               classified 2 double_1_6 10 FLAT EXTERN FLAT EXTERN]"
  have h: "enrichVisibleRangesWithStyle_rounded round64 exThis wideViewport ?ls None = Inr ?out"
    by code_simp
  have c: "firstRange ?ls 0 = Inr ?a" and n: "firstRange ?ls (0 + 1) = Inr ?b"
    by (simp_all add: firstRange_def oneRange_def)
  have i: "0 + 1 < length ?ls" by simp
  have v1: "\<bar>round64 (left ?a - left ?b)\<bar> < round64 (typicalHalfwidthCharacterWidth exThis / 4)"
    and v2: "\<bar>round64 (round64 (left ?a + width ?a) - round64 (left ?b + width ?b))\<bar>
             < round64 (typicalHalfwidthCharacterWidth exThis / 4)"
    by code_simp+
  have vals: "\<bar>round64 (double_0_4 - double_1_6)\<bar> < round64 (8 / 4)
   \<and> \<bar>round64 (round64 (double_0_4 + 10) - round64 (double_1_6 + 10))\<bar> < round64 (8 / 4)"
    by code_simp
  note t = C7_flat_adjacency [OF h i c n round64_odd]
  from t [THEN conjunct1, THEN mp, OF v1]
  have r1: "startStyleBottom (?out ! 0) = Some FLAT \<and> startStyleTop (?out ! (0 + 1)) = Some FLAT" .
  from t [THEN conjunct2, THEN mp, OF v2]
  have r2: "endStyleBottom (?out ! 0) = Some FLAT \<and> endStyleTop (?out ! (0 + 1)) = Some FLAT" .
  from r1 r2 h vals show ?thesis by simp
qed

text \<open>The claim as it was stated speaks of offsets that differ by less than epsilon. The
  doubles 0.4 and 2.4 differ by less than 2, and so do the exact right offsets with the
  width 10; but the difference 2.4 - 0.4 rounds to 2, which is not less than epsilon, and no
  corner between the two lines is FLAT.\<close>

theorem C7_counterexample:
  "round64 (2 / 5) = double_0_4 \<and> round64 (12 / 5) = double_2_4
   \<and> \<bar>double_0_4 - double_2_4\<bar> < 8 / 4
   \<and> \<bar>(double_0_4 + 10) - (double_2_4 + 10)\<bar> < 8 / 4
   \<and> enrichVisibleRangesWithStyle_rounded round64 exThis wideViewport
       [oneRange 1 double_0_4 10, oneRange 2 double_2_4 10] None
     = Inr [classified 1 double_0_4 10 EXTERN EXTERN EXTERN INTERN,
            classified 2 double_2_4 10 INTERN EXTERN EXTERN EXTERN]
   \<and> startStyleBottom (classified 1 double_0_4 10 EXTERN EXTERN EXTERN INTERN) = Some EXTERN
   \<and> startStyleTop (classified 2 double_2_4 10 INTERN EXTERN EXTERN EXTERN) = Some INTERN
   \<and> endStyleBottom (classified 1 double_0_4 10 EXTERN EXTERN EXTERN INTERN) = Some INTERN
   \<and> endStyleTop (classified 2 double_2_4 10 INTERN EXTERN EXTERN EXTERN) = Some EXTERN"
  by code_simp

text \<open>
  Claim C8. For a classified line \<open>i\<close> with a line above: if the left offset of line \<open>i\<close>
  exceeds that of line \<open>i - 1\<close>, by at least epsilon, \<^verbatim>\<open>startStyle.top\<close> is INTERN; if
  it is less than that of line \<open>i - 1\<close>, by at least epsilon, \<^verbatim>\<open>startStyle.top\<close> is
  EXTERN.
\<close>

theorem C8_intern_direction:
  assumes "enrichVisibleRangesWithStyle this viewport ls previousFrame = Inr out"
    and "0 < i"
    and "firstRange ls (i - 1) = Inr prev" and "firstRange ls i = Inr cur"
  shows "(left cur > left prev \<and> left cur - left prev \<ge> typicalHalfwidthCharacterWidth this / 4
            \<longrightarrow> startStyleTop (out ! i) = Some INTERN)
       \<and> (left cur < left prev \<and> left prev - left cur \<ge> typicalHalfwidthCharacterWidth this / 4
            \<longrightarrow> startStyleTop (out ! i) = Some EXTERN)"
proof -
  have "startStyleTop (out ! i) =
        Some (if \<bar>left cur - left prev\<bar> < typicalHalfwidthCharacterWidth this / 4 then FLAT
              else if left cur > left prev then INTERN else EXTERN)"
    using enrich_corners(1) [OF assms(1) assms(4) lookAbove_prev [OF assms(2) assms(3)]]
    by simp
  then show ?thesis by auto
qed

text \<open>One pair of lines for each direction.\<close>

theorem C8_witness:
  "enrichVisibleRangesWithStyle exThis wideViewport [oneRange 1 0 80, oneRange 2 10 50] None
     = Inr [classified 1 0 80 EXTERN EXTERN EXTERN EXTERN,
            classified 2 10 50 INTERN EXTERN INTERN EXTERN]
   \<and> (10::rat) > 0 \<and> (10::rat) - 0 \<ge> 8 / 4
   \<and> startStyleTop (classified 2 10 50 INTERN EXTERN INTERN EXTERN) = Some INTERN
   \<and> enrichVisibleRangesWithStyle exThis wideViewport [oneRange 1 10 50, oneRange 2 0 80] None
     = Inr [classified 1 10 50 EXTERN INTERN EXTERN INTERN,
            classified 2 0 80 EXTERN EXTERN EXTERN EXTERN]
   \<and> (0::rat) < 10 \<and> (10::rat) - 0 \<ge> 8 / 4
   \<and> startStyleTop (classified 2 0 80 EXTERN EXTERN EXTERN EXTERN) = Some EXTERN"
proof -
  let ?ls = "[oneRange 1 0 80, oneRange 2 10 50]"
  let ?out = "[classified 1 0 80 EXTERN EXTERN EXTERN EXTERN,
               classified 2 10 50 INTERN EXTERN INTERN EXTERN]"
  let ?ls' = "[oneRange 1 10 50, oneRange 2 0 80]"
  let ?out' = "[classified 1 10 50 EXTERN INTERN EXTERN INTERN,
                classified 2 0 80 EXTERN EXTERN EXTERN EXTERN]"
  have h: "enrichVisibleRangesWithStyle exThis wideViewport ?ls None = Inr ?out"
    by (simp add: eval_defs)
  have h': "enrichVisibleRangesWithStyle exThis wideViewport ?ls' None = Inr ?out'"
    by (simp add: eval_defs)
  have p: "firstRange ?ls (1 - 1)
           = Inr \<lparr>left = 0, width = 80, startStyle = None, endStyle = None\<rparr>"
    and c: "firstRange ?ls 1 = Inr \<lparr>left = 10, width = 50, startStyle = None, endStyle = None\<rparr>"
    and p': "firstRange ?ls' (1 - 1)
           = Inr \<lparr>left = 10, width = 50, startStyle = None, endStyle = None\<rparr>"
    and c': "firstRange ?ls' 1 = Inr \<lparr>left = 0, width = 80, startStyle = None, endStyle = None\<rparr>"
    by (simp_all add: firstRange_def oneRange_def)
  from C8_intern_direction [OF h _ p c] C8_intern_direction [OF h' _ p' c'] h h'
  show ?thesis by (simp add: exThis_def)
qed

section \<open>Idempotence\<close>

text \<open>
  Claim C9. Classifying the lines that a classification returned, with the same viewport
  and the same previous frame, returns them unchanged: the second run overwrites every
  style with the value it has. (The previous frame is a value of its own; in the source it
  is the array of an earlier frame, never the array being classified.)
\<close>

theorem C9_idempotent:
  assumes "enrichVisibleRangesWithStyle this viewport ls previousFrame = Inr out"
  shows "enrichVisibleRangesWithStyle this viewport out previousFrame = Inr out"
proof -
  let ?eps = "typicalHalfwidthCharacterWidth this / 4"
  let ?pt = "previousFrameTop viewport ls previousFrame"
  let ?pb = "previousFrameBottom viewport ls previousFrame"
  have g: "map geom out = map geom ls" using assms by (rule enrich_geom)
  have len: "length out = length ls" using assms by (rule enrich_length)
  have all: "\<forall>j. 0 \<le> j \<and> j < length ls \<longrightarrow>
      (\<exists>se. computeStyle ?eps ?pt ?pb j (length ls) ls = Inr se)"
    using enrich_nth [OF assms] by blast
  from enrichLoop_total [OF g refl all] obtain out2 where
    run2: "enrichLoop ?eps ?pt ?pb 0 (length ls) out = Inr out2" by blast
  from enrichLoop_char [OF run2 g refl] have len2: "length out2 = length ls"
    and nth2: "\<forall>j. 0 \<le> j \<and> j < length ls \<longrightarrow>
      (\<exists>s e. computeStyle ?eps ?pt ?pb j (length ls) ls = Inr (s, e) \<and>
             out2 ! j = assignStyle (out ! j) s e)" by blast+
  have "out2 = out"
  proof (rule nth_equalityI)
    show "length out2 = length out" using len len2 by simp
  next
    fix j assume "j < length out2"
    then have j: "j < length ls" using len2 by simp
    from nth2 j obtain s e where
      c2: "computeStyle ?eps ?pt ?pb j (length ls) ls = Inr (s, e)"
      and o2: "out2 ! j = assignStyle (out ! j) s e" by blast
    from enrich_nth [OF assms j] c2 have "out ! j = assignStyle (ls ! j) s e" by auto
    with o2 show "out2 ! j = out ! j" by (simp add: assignStyle_idem)
  qed
  with run2 show ?thesis
    using previousFrame_geom [OF g] len by (simp add: enrichVisibleRangesWithStyle_def)
qed

theorem C9_witness:
  "enrichVisibleRangesWithStyle exThis exViewport exLines (Some exFrame) = Inr exOut
   \<and> enrichVisibleRangesWithStyle exThis exViewport exOut (Some exFrame) = Inr exOut"
proof -
  have h: "enrichVisibleRangesWithStyle exThis exViewport exLines (Some exFrame) = Inr exOut"
    by (simp add: eval_defs exViewport_def exLines_def exFrame_def exOut_def)
  from C9_idempotent [OF h] h show ?thesis by simp
qed

section \<open>The two styles of a range\<close>

text \<open>
  Claim C10. In every result of \<^verbatim>\<open>_getVisibleRangesWithStyle\<close>, each range has
  \<^verbatim>\<open>startStyle\<close> null if and only if \<^verbatim>\<open>endStyle\<close> is null. Consequently, when such a
  result is the previous frame of a later classification, a range that passed the guard on
  \<^verbatim>\<open>startStyle\<close> has both styles, and the reads of the borrowed \<^verbatim>\<open>endStyle\<close> do not
  raise.
\<close>

theorem C10_styles_set_together:
  assumes "getVisibleRangesWithStyle this selection ctx previousFrame = Inr out"
  shows "(\<forall>l\<in>set out. \<forall>r\<in>set (ranges l). (startStyle r = None) = (endStyle r = None))
       \<and> (\<forall>viewport ls p.
            previousFrameTop viewport ls (Some out) = Some p
              \<or> previousFrameBottom viewport ls (Some out) = Some p
            \<longrightarrow> (\<exists>s e. startStyle p = Some s \<and> endStyle p = Some e
                   \<and> borrowed top_style p = Inr (top_style s, top_style e)
                   \<and> borrowed bottom_style p = Inr (bottom_style s, bottom_style e)))"
proof (intro conjI allI impI ballI)
  fix l r assume "l \<in> set out" "r \<in> set (ranges l)"
  then show "(startStyle r = None) = (endStyle r = None)"
    using getVisibleRangesWithStyle_inv [OF assms] by blast
next
  fix viewport ls p
  assume "previousFrameTop viewport ls (Some out) = Some p
              \<or> previousFrameBottom viewport ls (Some out) = Some p"
  from previousFrame_mem [OF this] obtain l where "startStyle p \<noteq> None" "l \<in> set out"
    "p \<in> set (ranges l)" by blast
  with getVisibleRangesWithStyle_inv [OF assms, of l p]
  have "startStyle p \<noteq> None \<and> endStyle p \<noteq> None"
    by simp
  then show "\<exists>s e. startStyle p = Some s \<and> endStyle p = Some e
                   \<and> borrowed top_style p = Inr (top_style s, top_style e)
                   \<and> borrowed bottom_style p = Inr (bottom_style s, bottom_style e)"
    by (auto simp: borrowed_def)
qed

text \<open>The scenario through the whole pipeline, and its result as the previous frame of the
  next classification of the same lines.\<close>

theorem C10_witness:
  "getVisibleRangesWithStyle exThis exSelection exCtx (Some exFrame) = Inr exOut
   \<and> hd exOut \<in> set exOut
   \<and> hd (ranges (hd exOut)) \<in> set (ranges (hd exOut))
   \<and> startStyle (hd (ranges (hd exOut))) \<noteq> None
   \<and> endStyle (hd (ranges (hd exOut))) \<noteq> None
   \<and> previousFrameTop exViewport exLines (Some exOut) = Some (hd (ranges (hd exOut)))
   \<and> borrowed top_style (hd (ranges (hd exOut))) = Inr (INTERN, FLAT)"
proof -
  have h: "getVisibleRangesWithStyle exThis exSelection exCtx (Some exFrame) = Inr exOut"
    by (simp add: getVisibleRangesWithStyle_def exCtx_def answering_def exRaw_def toStyled_def
        toStyledRange_def eval_defs exViewport_def exFrame_def exOut_def)
  have p: "previousFrameTop exViewport exLines (Some exOut) = Some (hd (ranges (hd exOut)))"
    by (simp add: eval_defs exViewport_def exLines_def exOut_def)
  from C10_styles_set_together [OF h] h p show ?thesis
    by (simp add: exOut_def classified_def borrowed_def)
qed

end
